theory Spec2Isabelle
  imports Main "HOL-Library.Word" "HOL-Library.Monad_Syntax" "HOL-Library.Sublist"
begin

section \<open>The binary cookie decoder of safari-cookie-json.c\<close>

text \<open>
  The program maps a file into memory and calls \<open>printCookiesFromMmap length data\<close>,
  which walks the buffer and prints JSON with \<open>putchar\<close>/\<open>printf\<close> as it goes.
  The embedding below follows that function line by line.

  \<^item> The mapped file is a \<open>char list\<close> (the C type is \<open>const char *\<close>); the C parameter
    \<open>length\<close> is the length of that list. A pointer into the buffer is its offset from
    \<open>data\<close>, a natural number: the target is a 64-bit system, \<open>size_t\<close> arithmetic on
    a 32-bit count does not wrap, and every offset that is used stays below the buffer
    length plus \<open>2 ^ 32\<close>.
  \<^item> Every read is checked: a read at an offset outside the buffer is the outcome
    \<open>OutOfBounds\<close> (undefined behaviour in C), so a theorem that the decoder returns
    says in particular that it read nothing outside the buffer.
  \<^item> An early \<open>return\<close> is the left summand of a sum type; the text written to standard
    output so far is carried along, since it has been written when the function returns.
  \<^item> The loop counters \<open>pageIdx\<close> and \<open>cookieIdx\<close> are C \<open>int\<close>s; the model counts in
    \<open>nat\<close>, which agrees with C below \<open>2 ^ 31\<close> iterations (a file with more pages has
    a page size table of more than 8 GiB).
\<close>

subsection \<open>Exit codes and outcomes\<close>

datatype exit_code =
    EXIT_CODE_OK
  | EXIT_CODE_BAD_INVOCATION
  | EXIT_CODE_BAD_OPEN
  | EXIT_CODE_BAD_CLOSE
  | EXIT_CODE_BAD_STAT
  | EXIT_CODE_BAD_MMAP
  | EXIT_CODE_BAD_MUNMAP
  | EXIT_CODE_BAD_EOF
  | EXIT_CODE_BAD_MAGIC
  | EXIT_CODE_BAD_PARSE

text \<open>The numeric value the C enumeration gives each code.\<close>

fun exit_value :: "exit_code \<Rightarrow> nat" where
  "exit_value EXIT_CODE_OK = 0"
| "exit_value EXIT_CODE_BAD_INVOCATION = 1"
| "exit_value EXIT_CODE_BAD_OPEN = 2"
| "exit_value EXIT_CODE_BAD_CLOSE = 3"
| "exit_value EXIT_CODE_BAD_STAT = 4"
| "exit_value EXIT_CODE_BAD_MMAP = 5"
| "exit_value EXIT_CODE_BAD_MUNMAP = 6"
| "exit_value EXIT_CODE_BAD_EOF = 7"
| "exit_value EXIT_CODE_BAD_MAGIC = 8"
| "exit_value EXIT_CODE_BAD_PARSE = 9"

text \<open>
  What a call of \<open>printCookiesFromMmap\<close> does: it returns an exit code, having written
  one text to standard output and one to standard error, or it reads outside the buffer.
\<close>

datatype outcome =
    Return exit_code string string
  | OutOfBounds

subsection \<open>Constants\<close>

definition BINARY_COOKIE_MAGIC :: "char list" where
  "BINARY_COOKIE_MAGIC = [CHR ''c'', CHR ''o'', CHR ''o'', CHR ''k'']"

definition COOKIE_PAGE_TAG :: "char list" where
  "COOKIE_PAGE_TAG = [CHR 0x00, CHR 0x00, CHR 0x01, CHR 0x00]"

definition COOKIE_PAGE_HEADER_END :: "char list" where
  "COOKIE_PAGE_HEADER_END = [CHR 0x00, CHR 0x00, CHR 0x00, CHR 0x00]"

definition BINARY_COOKIE_FOOTER :: "char list" where
  "BINARY_COOKIE_FOOTER = [CHR 0x07, CHR 0x17, CHR 0x20, CHR 0x05]"

subsection \<open>Reading the buffer\<close>

text \<open>\<open>*p\<close> for a pointer \<open>p = data + i\<close>.\<close>

definition peek :: "char list \<Rightarrow> nat \<Rightarrow> char option" where
  "peek data i = (if i < length data then Some (data ! i) else None)"

text \<open>
  \<open>memcmp(data + p, bytes, sizeof bytes)\<close> as a truth value: \<open>True\<close> when the result
  is not zero, that is when the bytes differ.
\<close>

definition memcmp :: "char list \<Rightarrow> nat \<Rightarrow> char list \<Rightarrow> bool option" where
  "memcmp data p bytes =
     (if p + length bytes \<le> length data
      then Some (take (length bytes) (drop p data) \<noteq> bytes)
      else None)"

text \<open>
  The three readers return the value and the advanced cursor. \<open>read32Hi\<close> is big-endian
  (shift the result, then add the byte), \<open>read32Lo\<close> and \<open>read64Lo\<close> are little-endian
  (add the byte shifted by its index).
\<close>

definition read32Hi :: "char list \<Rightarrow> nat \<Rightarrow> (32 word \<times> nat) option" where
  "read32Hi data p =
     (if p + 4 \<le> length data
      then Some (foldl (\<lambda>result i. push_bit 8 result + of_char (data ! (p + i))) 0 [0..<4], p + 4)
      else None)"

definition read32Lo :: "char list \<Rightarrow> nat \<Rightarrow> (32 word \<times> nat) option" where
  "read32Lo data p =
     (if p + 4 \<le> length data
      then Some (foldl (\<lambda>result i. result + push_bit (i * 8) (of_char (data ! (p + i)))) 0 [0..<4], p + 4)
      else None)"

definition read64Lo :: "char list \<Rightarrow> nat \<Rightarrow> (64 word \<times> nat) option" where
  "read64Lo data p =
     (if p + 8 \<le> length data
      then Some (foldl (\<lambda>result i. result + push_bit (i * 8) (of_char (data ! (p + i)))) 0 [0..<8], p + 8)
      else None)"

text \<open>
  \<open>readDouble\<close> reinterprets the eight bytes as a double. The model keeps the bit
  pattern: the only use of the double is to print it.
\<close>

definition readDouble :: "char list \<Rightarrow> nat \<Rightarrow> (64 word \<times> nat) option" where
  "readDouble data p = read64Lo data p"

subsection \<open>Emitting JSON\<close>

text \<open>Each emitter is the text it writes to standard output.\<close>

definition emitJsonBeginArray :: string where
  "emitJsonBeginArray = ''[''"

definition emitJsonBeginObject :: string where
  "emitJsonBeginObject = ''{''"

definition emitJsonEndArray :: string where
  "emitJsonEndArray = '']''"

definition emitJsonEndObject :: string where
  "emitJsonEndObject = ''}''"

definition emitJsonNameSeparator :: string where
  "emitJsonNameSeparator = '':''"

definition emitJsonValueSeparator :: string where
  "emitJsonValueSeparator = '',''"

text \<open>
  \<open>printf("%d", value)\<close> of the C library: the decimal digits, with a minus sign for a
  negative number.
\<close>

fun decimal :: "nat \<Rightarrow> string" where
  "decimal n =
     (if n < 10 then [''0123456789'' ! n]
      else decimal (n div 10) @ [''0123456789'' ! (n mod 10)])"

declare decimal.simps [simp del]

definition printf_d :: "int \<Rightarrow> string" where
  "printf_d i = (if i < 0 then CHR ''-'' # decimal (nat (- i)) else decimal (nat i))"

text \<open>
  The parameter of \<open>emitJsonNumberInt\<close> is a C \<open>int\<close>; the callers pass a \<open>uint32_t\<close>,
  which the call converts: the same 32 bits, read as two's complement.
\<close>

definition emitJsonNumberInt :: "32 word \<Rightarrow> string" where
  "emitJsonNumberInt v = printf_d (sint v)"

text \<open>
  \<open>emitJsonNumberDouble\<close> is \<open>printf("%.17lg", value)\<close>. The C library's rendering of a
  double is not part of this program: it is the parameter \<open>fmt\<close>, from the bit pattern of
  the double to the text printed.
\<close>

definition emitJsonNumberDouble :: "(64 word \<Rightarrow> string) \<Rightarrow> 64 word \<Rightarrow> string" where
  "emitJsonNumberDouble fmt v = fmt v"

definition emitJsonCharEscapedPretty :: "char \<Rightarrow> string" where
  "emitJsonCharEscapedPretty c = [CHR 0x5C, c]"

text \<open>\<open>printf("\\u%04X", value)\<close> for a byte: four upper case hexadecimal digits.\<close>

definition emitJsonCharEscapedUgly :: "char \<Rightarrow> string" where
  "emitJsonCharEscapedUgly c =
     [CHR 0x5C, CHR ''u'', CHR ''0'', CHR ''0'',
      ''0123456789ABCDEF'' ! (of_char c div 16), ''0123456789ABCDEF'' ! (of_char c mod 16)]"

text \<open>The body of the loop of \<open>emitJsonString\<close>: what one byte of the string becomes.\<close>

definition emitJsonByte :: "char \<Rightarrow> string" where
  "emitJsonByte byte =
     (if byte = CHR 0x22 then emitJsonCharEscapedPretty (CHR 0x22)
      else if byte = CHR 0x5C then emitJsonCharEscapedPretty (CHR 0x5C)
      else if byte = CHR 0x08 then emitJsonCharEscapedPretty (CHR ''b'')
      else if byte = CHR 0x0C then emitJsonCharEscapedPretty (CHR ''f'')
      else if byte = CHR 0x0A then emitJsonCharEscapedPretty (CHR ''n'')
      else if byte = CHR 0x0D then emitJsonCharEscapedPretty (CHR ''r'')
      else if byte = CHR 0x09 then emitJsonCharEscapedPretty (CHR ''t'')
      else if (of_char byte :: nat) < 0x20 then emitJsonCharEscapedUgly byte
      else [byte])"

text \<open>
  \<open>emitJsonString value\<close> scans the memory \<open>value\<close> points to up to the first zero byte.
  The argument of the model is the memory from the pointer on: for a pointer \<open>data + p\<close>
  that is \<open>drop p data\<close>, and for a string literal it is the literal with its
  terminating zero. A scan that finds no zero byte reads past the end: \<open>None\<close>.
\<close>

fun emitJsonStringLoop :: "char list \<Rightarrow> string option" where
  "emitJsonStringLoop [] = None"
| "emitJsonStringLoop (byte # cursor) =
     (if byte = CHR 0x00 then Some []
      else map_option (\<lambda>s. emitJsonByte byte @ s) (emitJsonStringLoop cursor))"

definition emitJsonString :: "char list \<Rightarrow> string option" where
  "emitJsonString v = map_option (\<lambda>s. [CHR 0x22] @ s @ [CHR 0x22]) (emitJsonStringLoop v)"

text \<open>A string literal of the C program, as the memory it occupies.\<close>

definition literal :: "string \<Rightarrow> char list" where
  "literal s = s @ [CHR 0x00]"

definition emitJsonNamedValueInt :: "char list \<Rightarrow> 32 word \<Rightarrow> string option" where
  "emitJsonNamedValueInt name v =
     do { n \<leftarrow> emitJsonString name;
          Some (n @ emitJsonNameSeparator @ emitJsonNumberInt v) }"

definition emitJsonSeparatedNamedValueInt :: "char list \<Rightarrow> 32 word \<Rightarrow> string option" where
  "emitJsonSeparatedNamedValueInt name v =
     do { nv \<leftarrow> emitJsonNamedValueInt name v;
          Some (emitJsonValueSeparator @ nv) }"

definition emitJsonSeparatedNamedValueDouble ::
  "(64 word \<Rightarrow> string) \<Rightarrow> char list \<Rightarrow> 64 word \<Rightarrow> string option" where
  "emitJsonSeparatedNamedValueDouble fmt name v =
     do { n \<leftarrow> emitJsonString name;
          Some (emitJsonValueSeparator @ n @ emitJsonNameSeparator @ emitJsonNumberDouble fmt v) }"

text \<open>
  The parameter \<open>present\<close> is a C \<open>int\<close> that receives a \<open>uint32_t\<close> offset: it is zero
  exactly when the offset is.
\<close>

definition emitJsonOptionalSeparatedNamedValueString ::
  "32 word \<Rightarrow> char list \<Rightarrow> char list \<Rightarrow> string option" where
  "emitJsonOptionalSeparatedNamedValueString present name v =
     (if present \<noteq> 0 then
        do { n \<leftarrow> emitJsonString name;
             s \<leftarrow> emitJsonString v;
             Some (emitJsonValueSeparator @ n @ emitJsonNameSeparator @ s) }
      else Some [])"

subsection \<open>The state of the decoder\<close>

text \<open>
  The local variables of \<open>printCookiesFromMmap\<close> that change from page to page, and
  the text written to standard output so far.
\<close>

record vars =
  first :: bool
  checkSum :: "32 word"
  pageSizeBase :: nat
  pageBase :: nat
  stdout :: string

text \<open>
  The fixed-width header of a cookie, in the order it is read: ten 32-bit fields and two
  doubles, 56 bytes in all.
\<close>

record cookie_header =
  c_cookieSize :: "32 word"
  c_version :: "32 word"
  c_flags :: "32 word"
  c_hasPort :: "32 word"
  c_domain :: "32 word"
  c_name :: "32 word"
  c_path :: "32 word"
  c_value :: "32 word"
  c_comment :: "32 word"
  c_commentUrl :: "32 word"
  c_expiry :: "64 word"
  c_creation :: "64 word"

definition readCookieHeader :: "char list \<Rightarrow> nat \<Rightarrow> cookie_header option" where
  "readCookieHeader data cookieCursor =
     do { (cookieSize, c1) \<leftarrow> read32Lo data cookieCursor;
          (version, c2) \<leftarrow> read32Lo data c1;
          (flags, c3) \<leftarrow> read32Lo data c2;
          (hasPort, c4) \<leftarrow> read32Lo data c3;
          (domain, c5) \<leftarrow> read32Lo data c4;
          (name, c6) \<leftarrow> read32Lo data c5;
          (path, c7) \<leftarrow> read32Lo data c6;
          (val, c8) \<leftarrow> read32Lo data c7;
          (comment, c9) \<leftarrow> read32Lo data c8;
          (commentUrl, c10) \<leftarrow> read32Lo data c9;
          (expiry, c11) \<leftarrow> readDouble data c10;
          (creation, c12) \<leftarrow> readDouble data c11;
          Some \<lparr>c_cookieSize = cookieSize, c_version = version, c_flags = flags,
                c_hasPort = hasPort, c_domain = domain, c_name = name, c_path = path,
                c_value = val, c_comment = comment, c_commentUrl = commentUrl,
                c_expiry = expiry, c_creation = creation\<rparr> }"

subsection \<open>One cookie\<close>

text \<open>The object written for a cookie that passed its checks (lines 283 to 295).\<close>

definition emitCookie ::
  "(64 word \<Rightarrow> string) \<Rightarrow> char list \<Rightarrow> nat \<Rightarrow> cookie_header \<Rightarrow> string option" where
  "emitCookie fmt data cookieBase h =
     do { version \<leftarrow> emitJsonNamedValueInt (literal ''version'') (c_version h);
          flags \<leftarrow> emitJsonSeparatedNamedValueInt (literal ''flags'') (c_flags h);
          domain \<leftarrow> emitJsonOptionalSeparatedNamedValueString (c_domain h)
            (literal ''domain'') (drop (cookieBase + unat (c_domain h)) data);
          name \<leftarrow> emitJsonOptionalSeparatedNamedValueString (c_name h)
            (literal ''name'') (drop (cookieBase + unat (c_name h)) data);
          path \<leftarrow> emitJsonOptionalSeparatedNamedValueString (c_path h)
            (literal ''path'') (drop (cookieBase + unat (c_path h)) data);
          val \<leftarrow> emitJsonOptionalSeparatedNamedValueString (c_value h)
            (literal ''value'') (drop (cookieBase + unat (c_value h)) data);
          comment \<leftarrow> emitJsonOptionalSeparatedNamedValueString (c_comment h)
            (literal ''comment'') (drop (cookieBase + unat (c_comment h)) data);
          commentUrl \<leftarrow> emitJsonOptionalSeparatedNamedValueString (c_commentUrl h)
            (literal ''commentUrl'') (drop (cookieBase + unat (c_commentUrl h)) data);
          expiry \<leftarrow> emitJsonSeparatedNamedValueDouble fmt (literal ''expiry'') (c_expiry h);
          creation \<leftarrow> emitJsonSeparatedNamedValueDouble fmt (literal ''creation'') (c_creation h);
          Some (emitJsonBeginObject @ version @ flags @ domain @ name @ path @ val @ comment
                @ commentUrl @ expiry @ creation @ emitJsonEndObject) }"

text \<open>The diagnostics that name a cookie: \<open>"Cookie %d in Page %d ..."\<close>.\<close>

definition cookieMessage :: "nat \<Rightarrow> nat \<Rightarrow> string \<Rightarrow> string" where
  "cookieMessage cookieIdx pageIdx what =
     ''Cookie '' @ printf_d (int cookieIdx) @ '' in Page '' @ printf_d (int pageIdx) @ what
       @ [CHR 0x0A]"

text \<open>
  The body of the cookie loop (lines 227 to 297). It returns the advanced cursor into the
  offset table with the new state. \<open>cookieEnd - 1\<close> is a pointer: below the start of the
  buffer it is outside the buffer.
\<close>

definition cookie ::
  "(64 word \<Rightarrow> string) \<Rightarrow> char list \<Rightarrow> nat \<Rightarrow> nat \<Rightarrow> nat \<Rightarrow> nat \<Rightarrow> vars
     \<Rightarrow> outcome + nat \<times> vars" where
  "cookie fmt data pageIdx pageEnd cookieIdx cookieOffsetBase v =
     (case read32Lo data cookieOffsetBase of
        None \<Rightarrow> Inl OutOfBounds
      | Some (offset, cookieOffsetBase') \<Rightarrow>
          let cookieBase = pageBase v + unat offset in
          if length data < cookieBase + 10 * 4 + 2 * 8 then
            Inl (Return EXIT_CODE_BAD_PARSE (stdout v)
                  (cookieMessage cookieIdx pageIdx '' too short for cookie header''))
          else
            (case readCookieHeader data cookieBase of
               None \<Rightarrow> Inl OutOfBounds
             | Some h \<Rightarrow>
                 let cookieEnd = cookieBase + unat (c_cookieSize h) in
                 if pageEnd < cookieEnd then
                   Inl (Return EXIT_CODE_BAD_PARSE (stdout v)
                         (cookieMessage cookieIdx pageIdx '' has end past end of page''))
                 else
                   (case (if cookieEnd = 0 then None else peek data (cookieEnd - 1)) of
                      None \<Rightarrow> Inl OutOfBounds
                    | Some lastByte \<Rightarrow>
                        if lastByte \<noteq> CHR 0x00 then
                          Inl (Return EXIT_CODE_BAD_PARSE (stdout v)
                                (cookieMessage cookieIdx pageIdx
                                   '' does not end with null terminated string''))
                        else if cookieEnd < cookieBase + unat (c_domain h) then
                          Inl (Return EXIT_CODE_BAD_PARSE (stdout v)
                                (cookieMessage cookieIdx pageIdx '' domain out of range''))
                        else if cookieEnd < cookieBase + unat (c_name h) then
                          Inl (Return EXIT_CODE_BAD_PARSE (stdout v)
                                (cookieMessage cookieIdx pageIdx '' name out of range''))
                        else if cookieEnd < cookieBase + unat (c_path h) then
                          Inl (Return EXIT_CODE_BAD_PARSE (stdout v)
                                (cookieMessage cookieIdx pageIdx '' path out of range''))
                        else if cookieEnd < cookieBase + unat (c_value h) then
                          Inl (Return EXIT_CODE_BAD_PARSE (stdout v)
                                (cookieMessage cookieIdx pageIdx '' value out of range''))
                        else if cookieEnd < cookieBase + unat (c_comment h) then
                          Inl (Return EXIT_CODE_BAD_PARSE (stdout v)
                                (cookieMessage cookieIdx pageIdx '' comment out of range''))
                        else if cookieEnd < cookieBase + unat (c_commentUrl h) then
                          Inl (Return EXIT_CODE_BAD_PARSE (stdout v)
                                (cookieMessage cookieIdx pageIdx '' commentUrl out of range''))
                        else
                          (case emitCookie fmt data cookieBase h of
                             None \<Rightarrow> Inl OutOfBounds
                           | Some object \<Rightarrow>
                               Inr (cookieOffsetBase',
                                    v\<lparr>first := False,
                                      stdout := stdout v
                                        @ (if first v then [] else emitJsonValueSeparator)
                                        @ object\<rparr>)))))"

text \<open>\<open>for(int cookieIdx = 0; cookieIdx < cookieCount; ++cookieIdx)\<close>\<close>

function cookieLoop ::
  "(64 word \<Rightarrow> string) \<Rightarrow> char list \<Rightarrow> nat \<Rightarrow> nat \<Rightarrow> 32 word \<Rightarrow> nat \<Rightarrow> nat \<Rightarrow> vars
     \<Rightarrow> outcome + vars" where
  "cookieLoop fmt data pageIdx pageEnd cookieCount cookieIdx cookieOffsetBase v =
     (if cookieIdx < unat cookieCount then
        (case cookie fmt data pageIdx pageEnd cookieIdx cookieOffsetBase v of
           Inl r \<Rightarrow> Inl r
         | Inr (cookieOffsetBase', v') \<Rightarrow>
             cookieLoop fmt data pageIdx pageEnd cookieCount (cookieIdx + 1) cookieOffsetBase' v')
      else Inr v)"
  by pat_completeness auto
termination
  by (relation "measure (\<lambda>(fmt, data, pageIdx, pageEnd, cookieCount, cookieIdx, rest).
        unat cookieCount - cookieIdx)") auto

declare cookieLoop.simps [simp del]

subsection \<open>One page\<close>

text \<open>
  The checksum loop (lines 303 to 306): the cursor steps four bytes, one byte is added
  each time, and the 32-bit sum wraps.
\<close>

function checkSumLoop :: "char list \<Rightarrow> nat \<Rightarrow> nat \<Rightarrow> 32 word \<Rightarrow> 32 word option" where
  "checkSumLoop data pageEnd pageCursor running =
     (if pageCursor < pageEnd then
        (case peek data pageCursor of
           None \<Rightarrow> None
         | Some byte \<Rightarrow> checkSumLoop data pageEnd (pageCursor + 4) (running + of_char byte))
      else Some running)"
  by pat_completeness auto
termination
  by (relation "measure (\<lambda>(data, pageEnd, pageCursor, running). pageEnd - pageCursor)") auto

declare checkSumLoop.simps [simp del]

text \<open>The body of the page loop (lines 203 to 308).\<close>

definition page ::
  "(64 word \<Rightarrow> string) \<Rightarrow> char list \<Rightarrow> nat \<Rightarrow> vars \<Rightarrow> outcome + vars" where
  "page fmt data pageIdx v =
     (case read32Hi data (pageSizeBase v) of
        None \<Rightarrow> Inl OutOfBounds
      | Some (pageSize, pageSizeBase') \<Rightarrow>
          let pageEnd = pageBase v + unat pageSize in
          if length data < pageEnd then
            Inl (Return EXIT_CODE_BAD_EOF (stdout v)
                  (''File too short, incomplete page '' @ printf_d (int pageIdx) @ [CHR 0x0A]))
          else if unat pageSize < 4 + 4 then
            Inl (Return EXIT_CODE_BAD_PARSE (stdout v)
                  (''Page '' @ printf_d (int pageIdx)
                     @ '' too short for page tag and cookie count'' @ [CHR 0x0A]))
          else
            (case memcmp data (pageBase v) COOKIE_PAGE_TAG of
               None \<Rightarrow> Inl OutOfBounds
             | Some differs \<Rightarrow>
                 if differs then
                   Inl (Return EXIT_CODE_BAD_MAGIC (stdout v)
                         (''Bad page tag - is this a cookie file?'' @ [CHR 0x0A]))
                 else
                   (case read32Lo data (pageBase v + 4) of
                      None \<Rightarrow> Inl OutOfBounds
                    | Some (cookieCount, cookieOffsetBase) \<Rightarrow>
                        let cookiePageHeaderEnd = cookieOffsetBase + unat cookieCount * 4 in
                        if pageEnd < cookiePageHeaderEnd + 4 then
                          Inl (Return EXIT_CODE_BAD_PARSE (stdout v)
                                (''Page '' @ printf_d (int pageIdx)
                                   @ '' too short for cookie offsets'' @ [CHR 0x0A]))
                        else
                          (case memcmp data cookiePageHeaderEnd COOKIE_PAGE_HEADER_END of
                             None \<Rightarrow> Inl OutOfBounds
                           | Some differs' \<Rightarrow>
                               if differs' then
                                 Inl (Return EXIT_CODE_BAD_MAGIC (stdout v)
                                       (''Bad page header end - is this a cookie file?''
                                          @ [CHR 0x0A]))
                               else
                                 (case cookieLoop fmt data pageIdx pageEnd cookieCount 0
                                         cookieOffsetBase (v\<lparr>pageSizeBase := pageSizeBase'\<rparr>) of
                                    Inl r \<Rightarrow> Inl r
                                  | Inr v' \<Rightarrow>
                                      (case checkSumLoop data pageEnd (pageBase v') (checkSum v') of
                                         None \<Rightarrow> Inl OutOfBounds
                                       | Some running \<Rightarrow>
                                           Inr (v'\<lparr>checkSum := running, pageBase := pageEnd\<rparr>)))))))"

text \<open>\<open>for(int pageIdx = 0; pageIdx < pageCount; ++pageIdx)\<close>\<close>

function pageLoop ::
  "(64 word \<Rightarrow> string) \<Rightarrow> char list \<Rightarrow> 32 word \<Rightarrow> nat \<Rightarrow> vars \<Rightarrow> outcome + vars" where
  "pageLoop fmt data pageCount pageIdx v =
     (if pageIdx < unat pageCount then
        (case page fmt data pageIdx v of
           Inl r \<Rightarrow> Inl r
         | Inr v' \<Rightarrow> pageLoop fmt data pageCount (pageIdx + 1) v')
      else Inr v)"
  by pat_completeness auto
termination
  by (relation "measure (\<lambda>(fmt, data, pageCount, pageIdx, v). unat pageCount - pageIdx)") auto

declare pageLoop.simps [simp del]

subsection \<open>The whole file\<close>

text \<open>After the page loop: checksum, footer and the size of the property list.\<close>

definition trailer :: "char list \<Rightarrow> vars \<Rightarrow> outcome" where
  "trailer data v =
     (if length data < pageBase v + 4 + 4 + 4 then
        Return EXIT_CODE_BAD_EOF (stdout v)
          (''File too short, for checksum, footer, and plist size'' @ [CHR 0x0A])
      else
        (case read32Hi data (pageBase v) of
           None \<Rightarrow> OutOfBounds
         | Some (savedCheckSum, footerBase) \<Rightarrow>
             if savedCheckSum \<noteq> checkSum v then
               Return EXIT_CODE_BAD_PARSE (stdout v) (''Bad file checksum'' @ [CHR 0x0A])
             else
               (case memcmp data footerBase BINARY_COOKIE_FOOTER of
                  None \<Rightarrow> OutOfBounds
                | Some differs \<Rightarrow>
                    if differs then
                      Return EXIT_CODE_BAD_MAGIC (stdout v)
                        (''Bad file footer - is this a cookie file?'' @ [CHR 0x0A])
                    else
                      (case read32Hi data (footerBase + 4) of
                         None \<Rightarrow> OutOfBounds
                       | Some (plistSize, plistBase) \<Rightarrow>
                           if length data \<noteq> plistBase + unat plistSize then
                             Return EXIT_CODE_BAD_PARSE (stdout v)
                               (''File length and plist data length mismatch'' @ [CHR 0x0A])
                           else
                             Return EXIT_CODE_OK
                               (stdout v @ emitJsonEndArray @ emitJsonEndObject) []))))"

text \<open>
  Everything before that (lines 181 to 309): the file header, then the page loop. The
  result is the early return, or the state in which the trailer is reached.
\<close>

definition pages :: "(64 word \<Rightarrow> string) \<Rightarrow> char list \<Rightarrow> outcome + vars" where
  "pages fmt data =
     (if length data < 4 + 4 then
        Inl (Return EXIT_CODE_BAD_EOF []
              (''File too short, when checking magic and page count'' @ [CHR 0x0A]))
      else
        (case memcmp data 0 BINARY_COOKIE_MAGIC of
           None \<Rightarrow> Inl OutOfBounds
         | Some differs \<Rightarrow>
             if differs then
               Inl (Return EXIT_CODE_BAD_MAGIC []
                     (''Bad magic - is this a cookie file?'' @ [CHR 0x0A]))
             else
               (case read32Hi data 4 of
                  None \<Rightarrow> Inl OutOfBounds
                | Some (pageCount, pageSizeBase0) \<Rightarrow>
                    let pageBase0 = pageSizeBase0 + unat pageCount * 4 in
                    if length data < pageBase0 then
                      Inl (Return EXIT_CODE_BAD_EOF []
                            (''File too short, when checking page sizes in header''
                               @ [CHR 0x0A]))
                    else
                      (case emitJsonString (literal ''cookies'') of
                         None \<Rightarrow> Inl OutOfBounds
                       | Some cookies \<Rightarrow>
                           pageLoop fmt data pageCount 0
                             \<lparr>first = True, checkSum = 0, pageSizeBase = pageSizeBase0,
                              pageBase = pageBase0,
                              stdout = emitJsonBeginObject @ cookies
                                @ emitJsonNameSeparator @ emitJsonBeginArray\<rparr>))))"

definition printCookiesFromMmap :: "(64 word \<Rightarrow> string) \<Rightarrow> char list \<Rightarrow> outcome" where
  "printCookiesFromMmap fmt data =
     (case pages fmt data of
        Inl r \<Rightarrow> r
      | Inr v \<Rightarrow> trailer data v)"

section \<open>Example files\<close>

text \<open>
  The rendering of doubles for the examples: what \<open>printf("%.17lg")\<close> prints for the
  three doubles that occur in them. All but two are \<open>0.0\<close>, printed as \<open>0\<close>; the header of
  the cookie of \<open>overhang_file\<close> reaches over the trailer, so that its expiry has the bits
  \<open>0x3E00000000000000\<close> (the checksum in its upper half) and its creation the bits
  \<open>0x05201707\<close> (the footer), a subnormal number. No other bit pattern is rendered in an
  example, and the table has the empty text there.
\<close>

definition render0 :: "64 word \<Rightarrow> string" where
  "render0 w =
     (if w = 0 then ''0''
      else if w = 0x3E00000000000000 then ''4.6566128730773926e-10''
      else if w = 0x05201707 then ''4.2484273566579971e-316''
      else [])"

text \<open>
  The scenario of the specification: one page with one cookie, domain \<open>x.com\<close>, name
  \<open>a\<close>, value \<open>b\<close>. First the file up to the end of its page, then the whole file.
\<close>

definition scenario_pages :: "char list" where
  "scenario_pages =
     ''cook'' \<comment> \<open>magic\<close>
     @ [CHR 0x00, CHR 0x00, CHR 0x00, CHR 0x01] \<comment> \<open>pageCount = 1\<close>
     @ [CHR 0x00, CHR 0x00, CHR 0x00, CHR 0x52] \<comment> \<open>size of page 0 = 82\<close>
     @ [CHR 0x00, CHR 0x00, CHR 0x01, CHR 0x00] \<comment> \<open>page tag\<close>
     @ [CHR 0x01, CHR 0x00, CHR 0x00, CHR 0x00] \<comment> \<open>cookieCount = 1\<close>
     @ [CHR 0x10, CHR 0x00, CHR 0x00, CHR 0x00] \<comment> \<open>offset of cookie 0 = 16\<close>
     @ [CHR 0x00, CHR 0x00, CHR 0x00, CHR 0x00] \<comment> \<open>end of page header\<close>
     @ [CHR 0x42, CHR 0x00, CHR 0x00, CHR 0x00] \<comment> \<open>cookieSize = 66\<close>
     @ [CHR 0x01, CHR 0x00, CHR 0x00, CHR 0x00] \<comment> \<open>version = 1\<close>
     @ [CHR 0x00, CHR 0x00, CHR 0x00, CHR 0x00] \<comment> \<open>flags = 0\<close>
     @ [CHR 0x00, CHR 0x00, CHR 0x00, CHR 0x00] \<comment> \<open>hasPort = 0\<close>
     @ [CHR 0x38, CHR 0x00, CHR 0x00, CHR 0x00] \<comment> \<open>domain at 56\<close>
     @ [CHR 0x3E, CHR 0x00, CHR 0x00, CHR 0x00] \<comment> \<open>name at 62\<close>
     @ [CHR 0x00, CHR 0x00, CHR 0x00, CHR 0x00] \<comment> \<open>no path\<close>
     @ [CHR 0x40, CHR 0x00, CHR 0x00, CHR 0x00] \<comment> \<open>value at 64\<close>
     @ [CHR 0x00, CHR 0x00, CHR 0x00, CHR 0x00] \<comment> \<open>no comment\<close>
     @ [CHR 0x00, CHR 0x00, CHR 0x00, CHR 0x00] \<comment> \<open>no commentUrl\<close>
     @ [CHR 0x00, CHR 0x00, CHR 0x00, CHR 0x00, CHR 0x00, CHR 0x00, CHR 0x00, CHR 0x00] \<comment> \<open>expiry = 0.0\<close>
     @ [CHR 0x00, CHR 0x00, CHR 0x00, CHR 0x00, CHR 0x00, CHR 0x00, CHR 0x00, CHR 0x00] \<comment> \<open>creation = 0.0\<close>
     @ ''x.com'' \<comment> \<open>domain\<close>
     @ [CHR 0x00]
     @ ''a'' \<comment> \<open>name\<close>
     @ [CHR 0x00]
     @ ''b'' \<comment> \<open>value\<close>
     @ [CHR 0x00]"

definition scenario_file :: "char list" where
  "scenario_file =
     scenario_pages
     @ [CHR 0x00, CHR 0x00, CHR 0x02, CHR 0x51] \<comment> \<open>checksum = 593\<close>
     @ [CHR 0x07, CHR 0x17, CHR 0x20, CHR 0x05] \<comment> \<open>footer\<close>
     @ [CHR 0x00, CHR 0x00, CHR 0x00, CHR 0x00] \<comment> \<open>plistSize = 0\<close>"

text \<open>The same file with a saved checksum that is off by one.\<close>

definition bad_checksum_file :: "char list" where
  "bad_checksum_file =
     scenario_pages
     @ [CHR 0x00, CHR 0x00, CHR 0x02, CHR 0x52] \<comment> \<open>checksum = 594\<close>
     @ [CHR 0x07, CHR 0x17, CHR 0x20, CHR 0x05] \<comment> \<open>footer\<close>
     @ [CHR 0x00, CHR 0x00, CHR 0x00, CHR 0x00] \<comment> \<open>plistSize = 0\<close>"

text \<open>A header that announces no page, and nothing after it.\<close>

definition no_pages_file :: "char list" where
  "no_pages_file =
     ''cook'' \<comment> \<open>magic\<close>
     @ [CHR 0x00, CHR 0x00, CHR 0x00, CHR 0x00] \<comment> \<open>pageCount = 0\<close>"

text \<open>A cookie that lies inside its page and declares the size 0.\<close>

definition zero_size_file :: "char list" where
  "zero_size_file =
     ''cook'' \<comment> \<open>magic\<close>
     @ [CHR 0x00, CHR 0x00, CHR 0x00, CHR 0x01] \<comment> \<open>pageCount = 1\<close>
     @ [CHR 0x00, CHR 0x00, CHR 0x00, CHR 0x48] \<comment> \<open>size of page 0 = 72\<close>
     @ [CHR 0x00, CHR 0x00, CHR 0x01, CHR 0x00] \<comment> \<open>page tag\<close>
     @ [CHR 0x01, CHR 0x00, CHR 0x00, CHR 0x00] \<comment> \<open>cookieCount = 1\<close>
     @ [CHR 0x10, CHR 0x00, CHR 0x00, CHR 0x00] \<comment> \<open>offset of cookie 0 = 16\<close>
     @ [CHR 0x00, CHR 0x00, CHR 0x00, CHR 0x00] \<comment> \<open>end of page header\<close>
     @ [CHR 0x00, CHR 0x00, CHR 0x00, CHR 0x00] \<comment> \<open>cookieSize = 0\<close>
     @ [CHR 0x01, CHR 0x00, CHR 0x00, CHR 0x00] \<comment> \<open>version = 1\<close>
     @ [CHR 0x00, CHR 0x00, CHR 0x00, CHR 0x00] \<comment> \<open>flags = 0\<close>
     @ [CHR 0x00, CHR 0x00, CHR 0x00, CHR 0x00] \<comment> \<open>hasPort = 0\<close>
     @ [CHR 0x00, CHR 0x00, CHR 0x00, CHR 0x00] \<comment> \<open>no domain\<close>
     @ [CHR 0x00, CHR 0x00, CHR 0x00, CHR 0x00] \<comment> \<open>no name\<close>
     @ [CHR 0x00, CHR 0x00, CHR 0x00, CHR 0x00] \<comment> \<open>no path\<close>
     @ [CHR 0x00, CHR 0x00, CHR 0x00, CHR 0x00] \<comment> \<open>no value\<close>
     @ [CHR 0x00, CHR 0x00, CHR 0x00, CHR 0x00] \<comment> \<open>no comment\<close>
     @ [CHR 0x00, CHR 0x00, CHR 0x00, CHR 0x00] \<comment> \<open>no commentUrl\<close>
     @ [CHR 0x00, CHR 0x00, CHR 0x00, CHR 0x00, CHR 0x00, CHR 0x00, CHR 0x00, CHR 0x00] \<comment> \<open>expiry = 0.0\<close>
     @ [CHR 0x00, CHR 0x00, CHR 0x00, CHR 0x00, CHR 0x00, CHR 0x00, CHR 0x00, CHR 0x00] \<comment> \<open>creation = 0.0\<close>
     @ [CHR 0x00, CHR 0x00, CHR 0x00, CHR 0x12] \<comment> \<open>checksum = 18\<close>
     @ [CHR 0x07, CHR 0x17, CHR 0x20, CHR 0x05] \<comment> \<open>footer\<close>
     @ [CHR 0x00, CHR 0x00, CHR 0x00, CHR 0x00] \<comment> \<open>plistSize = 0\<close>"

text \<open>
  A file that ends with its only page. The cookie is the last thing in the page; its
  domain offset equals its size, 57.
\<close>

definition unterminated_file :: "char list" where
  "unterminated_file =
     ''cook'' \<comment> \<open>magic\<close>
     @ [CHR 0x00, CHR 0x00, CHR 0x00, CHR 0x01] \<comment> \<open>pageCount = 1\<close>
     @ [CHR 0x00, CHR 0x00, CHR 0x00, CHR 0x49] \<comment> \<open>size of page 0 = 73\<close>
     @ [CHR 0x00, CHR 0x00, CHR 0x01, CHR 0x00] \<comment> \<open>page tag\<close>
     @ [CHR 0x01, CHR 0x00, CHR 0x00, CHR 0x00] \<comment> \<open>cookieCount = 1\<close>
     @ [CHR 0x10, CHR 0x00, CHR 0x00, CHR 0x00] \<comment> \<open>offset of cookie 0 = 16\<close>
     @ [CHR 0x00, CHR 0x00, CHR 0x00, CHR 0x00] \<comment> \<open>end of page header\<close>
     @ [CHR 0x39, CHR 0x00, CHR 0x00, CHR 0x00] \<comment> \<open>cookieSize = 57\<close>
     @ [CHR 0x01, CHR 0x00, CHR 0x00, CHR 0x00] \<comment> \<open>version = 1\<close>
     @ [CHR 0x00, CHR 0x00, CHR 0x00, CHR 0x00] \<comment> \<open>flags = 0\<close>
     @ [CHR 0x00, CHR 0x00, CHR 0x00, CHR 0x00] \<comment> \<open>hasPort = 0\<close>
     @ [CHR 0x39, CHR 0x00, CHR 0x00, CHR 0x00] \<comment> \<open>domain at 57\<close>
     @ [CHR 0x00, CHR 0x00, CHR 0x00, CHR 0x00] \<comment> \<open>no name\<close>
     @ [CHR 0x00, CHR 0x00, CHR 0x00, CHR 0x00] \<comment> \<open>no path\<close>
     @ [CHR 0x00, CHR 0x00, CHR 0x00, CHR 0x00] \<comment> \<open>no value\<close>
     @ [CHR 0x00, CHR 0x00, CHR 0x00, CHR 0x00] \<comment> \<open>no comment\<close>
     @ [CHR 0x00, CHR 0x00, CHR 0x00, CHR 0x00] \<comment> \<open>no commentUrl\<close>
     @ [CHR 0x00, CHR 0x00, CHR 0x00, CHR 0x00, CHR 0x00, CHR 0x00, CHR 0x00, CHR 0x00] \<comment> \<open>expiry = 0.0\<close>
     @ [CHR 0x00, CHR 0x00, CHR 0x00, CHR 0x00, CHR 0x00, CHR 0x00, CHR 0x00, CHR 0x00] \<comment> \<open>creation = 0.0\<close>
     @ [CHR 0x00] \<comment> \<open>the last byte of the cookie\<close>"


text \<open>
  A file that ends with its only page, 16 bytes long. The offset of the cookie is 16:
  the cookie would start where the buffer ends.
\<close>

definition short_header_file :: "char list" where
  "short_header_file =
     ''cook'' \<comment> \<open>magic\<close>
     @ [CHR 0x00, CHR 0x00, CHR 0x00, CHR 0x01] \<comment> \<open>pageCount = 1\<close>
     @ [CHR 0x00, CHR 0x00, CHR 0x00, CHR 0x10] \<comment> \<open>size of page 0 = 16\<close>
     @ [CHR 0x00, CHR 0x00, CHR 0x01, CHR 0x00] \<comment> \<open>page tag\<close>
     @ [CHR 0x01, CHR 0x00, CHR 0x00, CHR 0x00] \<comment> \<open>cookieCount = 1\<close>
     @ [CHR 0x10, CHR 0x00, CHR 0x00, CHR 0x00] \<comment> \<open>offset of cookie 0 = 16\<close>
     @ [CHR 0x00, CHR 0x00, CHR 0x00, CHR 0x00] \<comment> \<open>end of page header\<close>"



text \<open>
  Two pages. The cookie of page 0 starts 14 bytes before the end of that page and
  declares the size 2, so its header lies over the start of page 1: its domain offset is
  the last two bytes of the tag of page 1 and the first two of the cookie count.
\<close>

definition two_page_file :: "char list" where
  "two_page_file =
     ''cook'' \<comment> \<open>magic\<close>
     @ [CHR 0x00, CHR 0x00, CHR 0x00, CHR 0x02] \<comment> \<open>pageCount = 2\<close>
     @ [CHR 0x00, CHR 0x00, CHR 0x00, CHR 0x1E] \<comment> \<open>size of page 0 = 30\<close>
     @ [CHR 0x00, CHR 0x00, CHR 0x00, CHR 0x2A] \<comment> \<open>size of page 1 = 42\<close>
     @ [CHR 0x00, CHR 0x00, CHR 0x01, CHR 0x00] \<comment> \<open>tag of page 0\<close>
     @ [CHR 0x01, CHR 0x00, CHR 0x00, CHR 0x00] \<comment> \<open>cookieCount = 1\<close>
     @ [CHR 0x10, CHR 0x00, CHR 0x00, CHR 0x00] \<comment> \<open>offset of cookie 0 = 16\<close>
     @ [CHR 0x00, CHR 0x00, CHR 0x00, CHR 0x00] \<comment> \<open>end of page header\<close>
     @ [CHR 0x02, CHR 0x00, CHR 0x00, CHR 0x00] \<comment> \<open>cookieSize = 2\<close>
     @ [CHR 0x01, CHR 0x00, CHR 0x00, CHR 0x00] \<comment> \<open>version = 1\<close>
     @ [CHR 0x00, CHR 0x00, CHR 0x00, CHR 0x00] \<comment> \<open>flags = 0\<close>
     @ [CHR 0x00, CHR 0x00] \<comment> \<open>first half of hasPort; page 0 ends here\<close>
     @ [CHR 0x00, CHR 0x00, CHR 0x01, CHR 0x00] \<comment> \<open>tag of page 1, at offset 46\<close>
     @ [CHR 0x00, CHR 0x00, CHR 0x00, CHR 0x00] \<comment> \<open>cookieCount = 0\<close>
     @ [CHR 0x00, CHR 0x00, CHR 0x00, CHR 0x00] \<comment> \<open>end of page header\<close>
     @ replicate 30 (CHR 0x00) \<comment> \<open>rest of page 1\<close>
     @ [CHR 0x00, CHR 0x00, CHR 0x00, CHR 0x14] \<comment> \<open>checksum = 20\<close>
     @ [CHR 0x07, CHR 0x17, CHR 0x20, CHR 0x05] \<comment> \<open>footer\<close>
     @ [CHR 0x00, CHR 0x00, CHR 0x00, CHR 0x00] \<comment> \<open>plistSize = 0\<close>"

section \<open>The layout of a file, as the specification describes it\<close>

text \<open>
  The properties below speak about places in the file: the page count in the header, the
  table of page sizes after it, the pages one after the other, then the trailer. These
  definitions follow the format description of the specification; the theorems relate
  them to what the decoder does.
\<close>

definition pageCountOf :: "char list \<Rightarrow> nat" where
  "pageCountOf data = (case read32Hi data 4 of None \<Rightarrow> 0 | Some (pageCount, p) \<Rightarrow> unat pageCount)"

definition pageSizeOf :: "char list \<Rightarrow> nat \<Rightarrow> nat" where
  "pageSizeOf data k =
     (case read32Hi data (8 + 4 * k) of None \<Rightarrow> 0 | Some (pageSize, p) \<Rightarrow> unat pageSize)"

definition pageStart :: "char list \<Rightarrow> nat \<Rightarrow> nat" where
  "pageStart data k = 8 + 4 * pageCountOf data + sum_list (map (pageSizeOf data) [0..<k])"

text \<open>The end of the last page, where the trailer starts.\<close>

definition pagesEnd :: "char list \<Rightarrow> nat" where
  "pagesEnd data = pageStart data (pageCountOf data)"

text \<open>
  The file is rejected in its header: it is shorter than 8 bytes, the magic is wrong, or
  the table of page sizes does not fit (lines 181 to 194).
\<close>

definition headerRejected :: "char list \<Rightarrow> bool" where
  "headerRejected data =
     (length data < 8 \<or> take 4 data \<noteq> BINARY_COOKIE_MAGIC \<or>
      length data < 8 + 4 * pageCountOf data)"

text \<open>
  The checksum in the words of the specification: over every page, and over the byte
  offsets 0, 4, 8, ... within that page, the sum of the bytes at these offsets as
  unsigned 8-bit values, reduced modulo \<open>2 ^ 32\<close>.
\<close>

definition laneSum :: "char list \<Rightarrow> nat \<Rightarrow> nat" where
  "laneSum data k =
     sum_list (map (\<lambda>i. of_char (data ! (pageStart data k + 4 * i)))
       [0..<(pageSizeOf data k + 3) div 4])"

definition specChecksum :: "char list \<Rightarrow> 32 word" where
  "specChecksum data =
     of_nat (sum_list (map (laneSum data) [0..<pageCountOf data]) mod 2 ^ 32)"

section \<open>The keys of a rendered object\<close>

text \<open>
  To say which keys a rendered cookie object has, the text is read back the way a JSON
  reader scans it: a string starts at a quotation mark and ends at the next quotation
  mark that no backslash escapes, and a string that a colon follows is a key. The
  emitters write no white space, so the colon follows the closing quotation mark.
\<close>

datatype scan_mode =
    Plain
  | InString string
  | Escaped string
  | Closed string

fun keysFrom :: "scan_mode \<Rightarrow> string \<Rightarrow> string list" where
  "keysFrom m [] = []"
| "keysFrom Plain (c # cs) =
     (if c = CHR 0x22 then keysFrom (InString []) cs else keysFrom Plain cs)"
| "keysFrom (InString s) (c # cs) =
     (if c = CHR 0x22 then keysFrom (Closed s) cs
      else if c = CHR 0x5C then keysFrom (Escaped (s @ [c])) cs
      else keysFrom (InString (s @ [c])) cs)"
| "keysFrom (Escaped s) (c # cs) = keysFrom (InString (s @ [c])) cs"
| "keysFrom (Closed s) (c # cs) =
     (if c = CHR '':'' then s # keysFrom Plain cs
      else if c = CHR 0x22 then keysFrom (InString []) cs
      else keysFrom Plain cs)"

definition memberKeys :: "string \<Rightarrow> string list" where
  "memberKeys object = keysFrom Plain object"

section \<open>Buffers that end early, and pages that stand alone\<close>

text \<open>
  The outcomes that come from the end of the buffer: a failure of the class
  \<open>EXIT_CODE_BAD_EOF\<close>, the failure "too short for cookie header" of the cookie loop, and a
  read outside the buffer.
\<close>

definition cutShort :: "outcome \<Rightarrow> bool" where
  "cutShort r =
     (case r of
        OutOfBounds \<Rightarrow> True
      | Return code out err \<Rightarrow>
          code = EXIT_CODE_BAD_EOF \<or>
          (code = EXIT_CODE_BAD_PARSE \<and>
           suffix ('' too short for cookie header'' @ [CHR 0x0A]) err))"

text \<open>
  The number of cookies page \<open>k\<close> announces, and the place of the four bytes that end
  its table of cookie offsets.
\<close>

definition cookieCountOf :: "char list \<Rightarrow> nat \<Rightarrow> nat" where
  "cookieCountOf data k =
     (case read32Lo data (pageStart data k + 4) of
        None \<Rightarrow> 0
      | Some (cookieCount, p) \<Rightarrow> unat cookieCount)"

definition headerEndStart :: "char list \<Rightarrow> nat \<Rightarrow> nat" where
  "headerEndStart data k = pageStart data k + 8 + 4 * cookieCountOf data k"

text \<open>
  The state in which the page loop starts (lines 188 to 201), and the pages before page
  \<open>k\<close> standing alone: the decoder gets through them when the buffer is cut where page
  \<open>k\<close> starts, so it reads nothing of theirs at or after that place.
\<close>

definition initialVars :: "char list \<Rightarrow> vars" where
  "initialVars data =
     \<lparr>first = True, checkSum = 0, pageSizeBase = 8, pageBase = 8 + 4 * pageCountOf data,
      stdout = ''{\"cookies\":[''\<rparr>"

definition standAlone :: "(64 word \<Rightarrow> string) \<Rightarrow> char list \<Rightarrow> nat \<Rightarrow> bool" where
  "standAlone fmt data k =
     (case pageLoop fmt (take (pageStart data k) data) (of_nat k) 0 (initialVars data) of
        Inl r \<Rightarrow> False
      | Inr v \<Rightarrow> True)"

text \<open>
  The decoder comes to cookie \<open>i\<close> of page \<open>k\<close>: the header of the file is accepted,
  the decoder gets through the pages before page \<open>k\<close>, page \<open>k\<close> passes the checks of
  its header (lines 205 to 224: the page lies in the buffer, has room for its tag and
  its cookie count, starts with the tag, has room for its table of offsets and ends the
  table with four zero bytes), and the decoder gets through the cookies of page \<open>k\<close>
  before cookie \<open>i\<close>. The value is the state in which it comes to the cookie.
  \<open>cookieStartOf\<close> is the place where that cookie starts: the start of the page plus the
  entry \<open>i\<close> of the table of offsets.
\<close>

definition pageChecked :: "char list \<Rightarrow> nat \<Rightarrow> bool" where
  "pageChecked data k =
     (pageStart data k + pageSizeOf data k \<le> length data \<and> 8 \<le> pageSizeOf data k \<and>
      memcmp data (pageStart data k) COOKIE_PAGE_TAG = Some False \<and>
      headerEndStart data k + 4 \<le> pageStart data k + pageSizeOf data k \<and>
      memcmp data (headerEndStart data k) COOKIE_PAGE_HEADER_END = Some False)"

definition cookieStartOf :: "char list \<Rightarrow> nat \<Rightarrow> nat \<Rightarrow> nat" where
  "cookieStartOf data k i =
     pageStart data k +
       (case read32Lo data (pageStart data k + 8 + 4 * i) of
          None \<Rightarrow> 0
        | Some (offset, p) \<Rightarrow> unat offset)"

definition reachesCookie ::
  "(64 word \<Rightarrow> string) \<Rightarrow> char list \<Rightarrow> nat \<Rightarrow> nat \<Rightarrow> vars option" where
  "reachesCookie fmt data k i =
     (if headerRejected data \<or> pageCountOf data \<le> k then None
      else
        (case pageLoop fmt data (of_nat k) 0 (initialVars data) of
           Inl r \<Rightarrow> None
         | Inr vk \<Rightarrow>
             if \<not> pageChecked data k \<or> cookieCountOf data k \<le> i then None
             else
               (case cookieLoop fmt data k (pageStart data k + pageSizeOf data k) (of_nat i) 0
                       (pageStart data k + 8) (vk\<lparr>pageSizeBase := 8 + 4 * k + 4\<rparr>) of
                  Inl r \<Rightarrow> None
                | Inr vi \<Rightarrow> Some vi)))"




section \<open>What the readers and the loops preserve\<close>

lemma read32Hi_cursor:
  "read32Hi data p = Some (x, q) \<Longrightarrow> q = p + 4 \<and> p + 4 \<le> length data"
  by (auto simp: read32Hi_def split: if_splits)

lemma read32Lo_cursor:
  "read32Lo data p = Some (x, q) \<Longrightarrow> q = p + 4 \<and> p + 4 \<le> length data"
  by (auto simp: read32Lo_def split: if_splits)

lemma emitJsonString_cookies:
  "emitJsonString (literal ''cookies'') = Some ''\"cookies\"''"
  by (simp add: emitJsonString_def literal_def emitJsonByte_def)

text \<open>The loops, one step at a time.\<close>

lemma cookieLoop_done [simp]:
  "\<not> cookieIdx < unat cookieCount \<Longrightarrow>
   cookieLoop fmt data pageIdx pageEnd cookieCount cookieIdx cookieOffsetBase v = Inr v"
  by (subst cookieLoop.simps) simp

lemma cookieLoop_step [simp]:
  "cookieIdx < unat cookieCount \<Longrightarrow>
   cookieLoop fmt data pageIdx pageEnd cookieCount cookieIdx cookieOffsetBase v =
     (case cookie fmt data pageIdx pageEnd cookieIdx cookieOffsetBase v of
        Inl r \<Rightarrow> Inl r
      | Inr (cookieOffsetBase', v') \<Rightarrow>
          cookieLoop fmt data pageIdx pageEnd cookieCount (cookieIdx + 1) cookieOffsetBase' v')"
  by (subst cookieLoop.simps) simp

lemma pageLoop_done [simp]:
  "\<not> pageIdx < unat pageCount \<Longrightarrow> pageLoop fmt data pageCount pageIdx v = Inr v"
  by (subst pageLoop.simps) simp

lemma pageLoop_step [simp]:
  "pageIdx < unat pageCount \<Longrightarrow>
   pageLoop fmt data pageCount pageIdx v =
     (case page fmt data pageIdx v of
        Inl r \<Rightarrow> Inl r
      | Inr v' \<Rightarrow> pageLoop fmt data pageCount (pageIdx + 1) v')"
  by (subst pageLoop.simps) simp

lemma checkSumLoop_done [simp]:
  "\<not> pageCursor < pageEnd \<Longrightarrow> checkSumLoop data pageEnd pageCursor running = Some running"
  by (subst checkSumLoop.simps) simp

lemma checkSumLoop_step [simp]:
  "pageCursor < pageEnd \<Longrightarrow>
   checkSumLoop data pageEnd pageCursor running =
     (case peek data pageCursor of
        None \<Rightarrow> None
      | Some byte \<Rightarrow> checkSumLoop data pageEnd (pageCursor + 4) (running + of_char byte))"
  by (subst checkSumLoop.simps) simp

text \<open>
  One cookie: an early return is a failure with a diagnostic, and what standard output
  held is still there; otherwise only \<open>first\<close> and \<open>stdout\<close> change.
\<close>

lemma cookie_Inl:
  assumes "cookie fmt data pageIdx pageEnd cookieIdx cookieOffsetBase v = Inl (Return code out err)"
  shows "code \<noteq> EXIT_CODE_OK \<and> out = stdout v \<and> err \<noteq> []"
  using assms
  by (auto simp: cookie_def cookieMessage_def Let_def split: option.splits if_splits)

lemma cookie_Inr:
  assumes "cookie fmt data pageIdx pageEnd cookieIdx cookieOffsetBase v = Inr (cursor, v')"
  shows "prefix (stdout v) (stdout v') \<and> checkSum v' = checkSum v \<and>
         pageBase v' = pageBase v \<and> pageSizeBase v' = pageSizeBase v \<and>
         cursor = cookieOffsetBase + 4"
  using assms
  by (auto simp: cookie_def Let_def dest: read32Lo_cursor split: option.splits if_splits)

lemma cookieLoop_Inl:
  "cookieLoop fmt data pageIdx pageEnd cookieCount cookieIdx cookieOffsetBase v
     = Inl (Return code out err)
   \<Longrightarrow> code \<noteq> EXIT_CODE_OK \<and> prefix (stdout v) out \<and> err \<noteq> []"
proof (induction fmt data pageIdx pageEnd cookieCount cookieIdx cookieOffsetBase v
    rule: cookieLoop.induct)
  case (1 fmt data pageIdx pageEnd cookieCount cookieIdx cookieOffsetBase v)
  show ?case
  proof (cases "cookie fmt data pageIdx pageEnd cookieIdx cookieOffsetBase v")
    case (Inl r)
    with "1.prems" show ?thesis
      by (cases "cookieIdx < unat cookieCount") (auto dest!: cookie_Inl)
  next
    case (Inr b)
    obtain cursor v' where b: "b = (cursor, v')" by (cases b)
    with "1.prems" Inr have lt: "cookieIdx < unat cookieCount"
      and rec: "cookieLoop fmt data pageIdx pageEnd cookieCount (cookieIdx + 1) cursor v'
                  = Inl (Return code out err)"
      by (cases "cookieIdx < unat cookieCount"; simp)+
    from "1.IH" [OF lt Inr [unfolded b] refl rec]
    have "code \<noteq> EXIT_CODE_OK \<and> prefix (stdout v') out \<and> err \<noteq> []" .
    moreover from Inr b have "prefix (stdout v) (stdout v')"
      using cookie_Inr by blast
    ultimately show ?thesis by (auto intro: prefix_order.trans)
  qed
qed

lemma cookieLoop_Inr:
  "cookieLoop fmt data pageIdx pageEnd cookieCount cookieIdx cookieOffsetBase v = Inr v'
   \<Longrightarrow> prefix (stdout v) (stdout v') \<and> checkSum v' = checkSum v \<and>
       pageBase v' = pageBase v \<and> pageSizeBase v' = pageSizeBase v"
proof (induction fmt data pageIdx pageEnd cookieCount cookieIdx cookieOffsetBase v
    rule: cookieLoop.induct)
  case (1 fmt data pageIdx pageEnd cookieCount cookieIdx cookieOffsetBase v)
  show ?case
  proof (cases "cookieIdx < unat cookieCount")
    case False
    with "1.prems" show ?thesis by simp
  next
    case True
    with "1.prems" obtain cursor v1 where
      step: "cookie fmt data pageIdx pageEnd cookieIdx cookieOffsetBase v = Inr (cursor, v1)"
      and rec: "cookieLoop fmt data pageIdx pageEnd cookieCount (cookieIdx + 1) cursor v1 = Inr v'"
      by (auto split: sum.splits)
    from "1.IH" [OF True step refl rec] cookie_Inr [OF step]
    show ?thesis by (auto intro: prefix_order.trans)
  qed
qed

lemma page_Inl:
  assumes "page fmt data pageIdx v = Inl (Return code out err)"
  shows "code \<noteq> EXIT_CODE_OK \<and> prefix (stdout v) out \<and> err \<noteq> []"
  using assms
  by (auto simp: page_def Let_def dest!: cookieLoop_Inl
      split: option.splits if_splits sum.splits)

lemma page_Inr:
  assumes "page fmt data pageIdx v = Inr v'"
  shows "prefix (stdout v) (stdout v')"
  using assms
  by (auto simp: page_def Let_def dest!: cookieLoop_Inr
      split: option.splits if_splits sum.splits)

lemma pageLoop_Inl:
  "pageLoop fmt data pageCount pageIdx v = Inl (Return code out err)
   \<Longrightarrow> code \<noteq> EXIT_CODE_OK \<and> prefix (stdout v) out \<and> err \<noteq> []"
proof (induction fmt data pageCount pageIdx v rule: pageLoop.induct)
  case (1 fmt data pageCount pageIdx v)
  show ?case
  proof (cases "page fmt data pageIdx v")
    case (Inl r)
    with "1.prems" show ?thesis
      by (cases "pageIdx < unat pageCount") (auto dest!: page_Inl)
  next
    case (Inr v1)
    with "1.prems" have lt: "pageIdx < unat pageCount"
      and rec: "pageLoop fmt data pageCount (pageIdx + 1) v1 = Inl (Return code out err)"
      by (cases "pageIdx < unat pageCount"; simp)+
    from "1.IH" [OF lt Inr rec] page_Inr [OF Inr]
    show ?thesis by (auto intro: prefix_order.trans)
  qed
qed

lemma pageLoop_Inr:
  "pageLoop fmt data pageCount pageIdx v = Inr v'
   \<Longrightarrow> prefix (stdout v) (stdout v')"
proof (induction fmt data pageCount pageIdx v rule: pageLoop.induct)
  case (1 fmt data pageCount pageIdx v)
  show ?case
  proof (cases "pageIdx < unat pageCount")
    case False
    with "1.prems" show ?thesis by simp
  next
    case True
    with "1.prems" obtain v1 where
      step: "page fmt data pageIdx v = Inr v1"
      and rec: "pageLoop fmt data pageCount (pageIdx + 1) v1 = Inr v'"
      by (auto split: sum.splits)
    from "1.IH" [OF True step rec] page_Inr [OF step]
    show ?thesis by (auto intro: prefix_order.trans)
  qed
qed

text \<open>The header: the three early returns of \<open>pages\<close>, or the page loop.\<close>

lemma constant_lengths [simp]:
  "length BINARY_COOKIE_MAGIC = 4" "length COOKIE_PAGE_TAG = 4"
  "length COOKIE_PAGE_HEADER_END = 4" "length BINARY_COOKIE_FOOTER = 4"
  by (simp_all add: BINARY_COOKIE_MAGIC_def COOKIE_PAGE_TAG_def COOKIE_PAGE_HEADER_END_def
      BINARY_COOKIE_FOOTER_def)

lemma memcmp_magic:
  "4 + 4 \<le> length data \<Longrightarrow>
   memcmp data 0 BINARY_COOKIE_MAGIC = Some (take 4 data \<noteq> BINARY_COOKIE_MAGIC)"
  by (simp add: memcmp_def)

lemma pages_rejected:
  assumes "headerRejected data" and "pages fmt data = Inl (Return code out err)"
  shows "code \<noteq> EXIT_CODE_OK \<and> out = [] \<and> err \<noteq> []"
  using assms
  by (auto simp: pages_def headerRejected_def pageCountOf_def memcmp_magic Let_def
      dest!: read32Hi_cursor split: option.splits if_splits)

lemma pages_rejected_Inl:
  assumes "headerRejected data"
  shows "\<exists>r. pages fmt data = Inl r"
  using assms
  by (auto simp: pages_def headerRejected_def pageCountOf_def memcmp_magic Let_def
      dest!: read32Hi_cursor split: option.splits if_splits)

lemma pages_accepted:
  assumes "\<not> headerRejected data"
  shows "\<exists>pageCount.
     pages fmt data =
       pageLoop fmt data pageCount 0
         (initialVars data) \<and>
     unat pageCount = pageCountOf data"
proof -
  from assms have len: "4 + 4 \<le> length data" and magic: "take 4 data = BINARY_COOKIE_MAGIC"
    and fits: "8 + 4 * pageCountOf data \<le> length data"
    by (auto simp: headerRejected_def)
  from len obtain pageCount where rd: "read32Hi data 4 = Some (pageCount, 8)"
    by (auto simp: read32Hi_def)
  then have cnt: "pageCountOf data = unat pageCount"
    by (simp add: pageCountOf_def)
  have "pages fmt data =
       pageLoop fmt data pageCount 0
         (initialVars data)"
    using len magic fits rd cnt
    by (simp add: pages_def memcmp_magic emitJsonString_cookies Let_def initialVars_def
        emitJsonBeginObject_def emitJsonNameSeparator_def emitJsonBeginArray_def mult.commute)
  with cnt show ?thesis by auto
qed

lemma pages_Inl:
  assumes "pages fmt data = Inl (Return code out err)"
  shows "code \<noteq> EXIT_CODE_OK"
proof (cases "headerRejected data")
  case True
  from pages_rejected [OF True assms] show ?thesis by simp
next
  case False
  from pages_accepted [OF False, of fmt] assms obtain pageCount where
    "pageLoop fmt data pageCount 0 (initialVars data) = Inl (Return code out err)"
    by auto
  from pageLoop_Inl [OF this] show ?thesis by simp
qed

text \<open>A page that passed its own checks, and what a page that was decoded had to pass.\<close>

lemma read32Lo_inside:
  "p + 4 \<le> length t \<Longrightarrow> \<exists>x. read32Lo t p = Some (x, p + 4)"
  by (simp add: read32Lo_def)

lemma page_checked:
  assumes "read32Hi d (pageSizeBase v) = Some (pageSize, q)"
    and "pageBase v + unat pageSize \<le> length d"
    and "8 \<le> unat pageSize"
    and "memcmp d (pageBase v) COOKIE_PAGE_TAG = Some False"
    and "read32Lo d (pageBase v + 4) = Some (cookieCount, pageBase v + 8)"
    and "pageBase v + 8 + unat cookieCount * 4 + 4 \<le> pageBase v + unat pageSize"
    and "memcmp d (pageBase v + 8 + unat cookieCount * 4) COOKIE_PAGE_HEADER_END = Some False"
  shows "page fmt d pageIdx v =
           (case cookieLoop fmt d pageIdx (pageBase v + unat pageSize) cookieCount 0
                   (pageBase v + 8) (v\<lparr>pageSizeBase := q\<rparr>) of
              Inl r \<Rightarrow> Inl r
            | Inr v' \<Rightarrow>
                (case checkSumLoop d (pageBase v + unat pageSize) (pageBase v') (checkSum v') of
                   None \<Rightarrow> Inl OutOfBounds
                 | Some running \<Rightarrow>
                     Inr (v'\<lparr>checkSum := running, pageBase := pageBase v + unat pageSize\<rparr>)))"
  using assms by (simp add: page_def Let_def)

lemma page_Inr_cases:
  assumes decoded: "page fmt d pageIdx v = Inr v'"
  obtains pageSize q cookieCount v1 running where
    "read32Hi d (pageSizeBase v) = Some (pageSize, q)"
    "pageBase v + unat pageSize \<le> length d"
    "8 \<le> unat pageSize"
    "memcmp d (pageBase v) COOKIE_PAGE_TAG = Some False"
    "read32Lo d (pageBase v + 4) = Some (cookieCount, pageBase v + 8)"
    "pageBase v + 8 + unat cookieCount * 4 + 4 \<le> pageBase v + unat pageSize"
    "memcmp d (pageBase v + 8 + unat cookieCount * 4) COOKIE_PAGE_HEADER_END = Some False"
    "cookieLoop fmt d pageIdx (pageBase v + unat pageSize) cookieCount 0 (pageBase v + 8)
       (v\<lparr>pageSizeBase := q\<rparr>) = Inr v1"
    "checkSumLoop d (pageBase v + unat pageSize) (pageBase v1) (checkSum v1) = Some running"
    "v' = v1\<lparr>checkSum := running, pageBase := pageBase v + unat pageSize\<rparr>"
proof -
  from decoded obtain pageSize q where
    rd: "read32Hi d (pageSizeBase v) = Some (pageSize, q)"
    by (cases "read32Hi d (pageSizeBase v)") (auto simp: page_def Let_def)
  from decoded rd have whole: "pageBase v + unat pageSize \<le> length d"
    by (cases "length d < pageBase v + unat pageSize") (simp_all add: page_def Let_def)
  from decoded rd whole have size: "8 \<le> unat pageSize"
    by (cases "unat pageSize < 4 + 4") (simp_all add: page_def Let_def)
  from whole size obtain differs where
    tag: "memcmp d (pageBase v) COOKIE_PAGE_TAG = Some differs"
    by (simp add: memcmp_def)
  from decoded rd whole size tag have same: "\<not> differs"
    by (cases differs) (simp_all add: page_def Let_def)
  from whole size obtain cookieCount where
    count: "read32Lo d (pageBase v + 4) = Some (cookieCount, pageBase v + 8)"
    using read32Lo_inside [of "pageBase v + 4" d] by auto
  from decoded rd whole size tag same count
  have table: "pageBase v + 8 + unat cookieCount * 4 + 4 \<le> pageBase v + unat pageSize"
    by (cases "pageBase v + unat pageSize < pageBase v + 8 + unat cookieCount * 4 + 4")
      (simp_all add: page_def Let_def)
  from table whole obtain differs' where
    ending: "memcmp d (pageBase v + 8 + unat cookieCount * 4) COOKIE_PAGE_HEADER_END
               = Some differs'"
    by (simp add: memcmp_def)
  from decoded rd whole size tag same count table ending have same': "\<not> differs'"
    by (cases differs') (simp_all add: page_def Let_def)
  note body = page_checked [OF rd whole size tag [unfolded eq_False [THEN iffD2, OF same]]
      count table ending [unfolded eq_False [THEN iffD2, OF same']], of fmt pageIdx]
  from decoded obtain v1 where
    loop: "cookieLoop fmt d pageIdx (pageBase v + unat pageSize) cookieCount 0 (pageBase v + 8)
             (v\<lparr>pageSizeBase := q\<rparr>) = Inr v1"
    unfolding body by (auto split: sum.splits)
  from decoded loop obtain running where
    sum: "checkSumLoop d (pageBase v + unat pageSize) (pageBase v1) (checkSum v1) = Some running"
    and v': "v' = v1\<lparr>checkSum := running, pageBase := pageBase v + unat pageSize\<rparr>"
    unfolding body by (auto split: option.splits)
  from same same' tag ending have
    "memcmp d (pageBase v) COOKIE_PAGE_TAG = Some False"
    "memcmp d (pageBase v + 8 + unat cookieCount * 4) COOKIE_PAGE_HEADER_END = Some False"
    by simp_all
  with rd whole size count table loop sum v' show thesis
    by (intro that)
qed

text \<open>
  What a cookie header that was read says about the buffer, and what a cookie that was
  decoded went through.
\<close>

lemma read32Lo_bind:
  "(read32Lo data p \<bind> (\<lambda>(x, c). f x c)) = Some y \<Longrightarrow>
   \<exists>x. read32Lo data p = Some (x, p + 4) \<and> p + 4 \<le> length data \<and> f x (p + 4) = Some y"
  by (cases "read32Lo data p") (auto dest: read32Lo_cursor)

lemma read64Lo_bind:
  "(read64Lo data p \<bind> (\<lambda>(x, c). f x c)) = Some y \<Longrightarrow>
   \<exists>x. read64Lo data p = Some (x, p + 8) \<and> p + 8 \<le> length data \<and> f x (p + 8) = Some y"
  by (cases "read64Lo data p") (auto simp: read64Lo_def split: if_splits)

lemma readCookieHeader_fields:
  assumes "readCookieHeader data p = Some h"
  shows "p + 56 \<le> length data \<and>
     read32Lo data p = Some (c_cookieSize h, p + 4) \<and>
     read32Lo data (p + 16) = Some (c_domain h, p + 20) \<and>
     read32Lo data (p + 20) = Some (c_name h, p + 24) \<and>
     read32Lo data (p + 24) = Some (c_path h, p + 28) \<and>
     read32Lo data (p + 28) = Some (c_value h, p + 32) \<and>
     read32Lo data (p + 32) = Some (c_comment h, p + 36) \<and>
     read32Lo data (p + 36) = Some (c_commentUrl h, p + 40)"
  using assms unfolding readCookieHeader_def readDouble_def
  apply -
  apply (drule read32Lo_bind, elim exE conjE)
  apply (drule read32Lo_bind, elim exE conjE)
  apply (drule read32Lo_bind, elim exE conjE)
  apply (drule read32Lo_bind, elim exE conjE)
  apply (drule read32Lo_bind, elim exE conjE)
  apply (drule read32Lo_bind, elim exE conjE)
  apply (drule read32Lo_bind, elim exE conjE)
  apply (drule read32Lo_bind, elim exE conjE)
  apply (drule read32Lo_bind, elim exE conjE)
  apply (drule read32Lo_bind, elim exE conjE)
  apply (drule read64Lo_bind, elim exE conjE)
  apply (drule read64Lo_bind, elim exE conjE)
  apply (simp add: add.assoc)
  apply auto
  done

lemma cookie_decoded:
  assumes "cookie fmt data pageIdx pageEnd cookieIdx cookieOffsetBase v = Inr (cursor, v')"
  obtains offset h object where
    "read32Lo data cookieOffsetBase = Some (offset, cursor)"
    "readCookieHeader data (pageBase v + unat offset) = Some h"
    "emitCookie fmt data (pageBase v + unat offset) h = Some object"
    "v' = v\<lparr>first := False,
            stdout := stdout v @ (if first v then [] else emitJsonValueSeparator) @ object\<rparr>"
    "pageBase v + unat offset + unat (c_cookieSize h) \<le> pageEnd"
    "peek data (pageBase v + unat offset + unat (c_cookieSize h) - 1) = Some (CHR 0x00)"
    "0 < pageBase v + unat offset + unat (c_cookieSize h)"
  using assms
  by (auto simp: cookie_def Let_def split: option.splits if_splits)

section \<open>The scenario of the specification\<close>

lemma scenario_run:
  "printCookiesFromMmap fmt scenario_file =
     Return EXIT_CODE_OK
       (''{\"cookies\":[{\"version\":1,\"flags\":0,\"domain\":\"x.com\",\"name\":\"a\",\"value\":\"b\",\"expiry\":''
          @ fmt 0 @ '',\"creation\":'' @ fmt 0 @ ''}]}'') []"
  apply code_simp
  apply simp
  done

text \<open>
  C4. The file with one page and one cookie (domain \<open>x.com\<close>, name \<open>a\<close>, value \<open>b\<close>,
  no path, comment or commentUrl, version 1, flags 0, expiry and creation 0.0, right
  checksum and footer) is rendered as the text the specification gives, the keys in that
  order and the absent fields left out. The one fact used about the C library is that
  \<open>printf("%.17lg")\<close> prints the double 0.0, whose bit pattern is 0, as \<open>0\<close>.
\<close>

theorem scenario_renders:
  assumes "fmt 0 = ''0''"
  shows "printCookiesFromMmap fmt scenario_file =
     Return EXIT_CODE_OK
       ''{\"cookies\":[{\"version\":1,\"flags\":0,\"domain\":\"x.com\",\"name\":\"a\",\"value\":\"b\",\"expiry\":0,\"creation\":0}]}''
       []"
  using assms by (simp add: scenario_run)

theorem scenario_renders_witness:
  "render0 0 = ''0'' \<and>
   printCookiesFromMmap render0 scenario_file =
     Return EXIT_CODE_OK
       ''{\"cookies\":[{\"version\":1,\"flags\":0,\"domain\":\"x.com\",\"name\":\"a\",\"value\":\"b\",\"expiry\":0,\"creation\":0}]}''
       []"
  using scenario_renders [of render0] by (simp add: render0_def)

section \<open>String fields and the end of the cookie\<close>

text \<open>
  C1. The claim is that the scan of a string field never reads at or beyond
  \<open>cookieEnd\<close>. The check of a field offset is \<open>cookieEnd < cookieBase + offset\<close>, so an
  offset equal to the declared size passes it, and the scan then starts at \<open>cookieEnd\<close>
  itself. In \<open>unterminated_file\<close> the cookie starts at 28, its size and its domain offset
  are 57, the byte before \<open>cookieEnd = 85\<close> is zero, and the buffer is 85 bytes long: the
  first byte the scan reads is outside the buffer.
\<close>

theorem scan_starts_at_cookie_end:
  "length unterminated_file = 85 \<and>
   map_option (\<lambda>h. (unat (c_cookieSize h), unat (c_domain h)))
     (readCookieHeader unterminated_file 28) = Some (57, 57) \<and>
   peek unterminated_file (28 + 57 - 1) = Some (CHR 0x00) \<and>
   emitJsonString (drop (28 + 57) unterminated_file) = None \<and>
   printCookiesFromMmap render0 unterminated_file = OutOfBounds"
  by code_simp

section \<open>The exit code of a checksum mismatch\<close>

text \<open>
  C6, as the claim states it: a checksum mismatch would have an exit code of its own.
  The file with the wrong checksum and the file with one byte too many after the
  property list both return \<open>EXIT_CODE_BAD_PARSE\<close>.
\<close>

theorem bad_checksum_shares_exit_code:
  "printCookiesFromMmap render0 bad_checksum_file =
     Return EXIT_CODE_BAD_PARSE
       ''{\"cookies\":[{\"version\":1,\"flags\":0,\"domain\":\"x.com\",\"name\":\"a\",\"value\":\"b\",\"expiry\":0,\"creation\":0}''
       (''Bad file checksum'' @ [CHR 0x0A]) \<and>
   printCookiesFromMmap render0 (scenario_file @ [CHR 0x00]) =
     Return EXIT_CODE_BAD_PARSE
       ''{\"cookies\":[{\"version\":1,\"flags\":0,\"domain\":\"x.com\",\"name\":\"a\",\"value\":\"b\",\"expiry\":0,\"creation\":0}''
       (''File length and plist data length mismatch'' @ [CHR 0x0A])"
  by code_simp

text \<open>
  C6, amended. When the header and every page pass, the twelve bytes of the trailer are
  there and the saved checksum is not the running one, the decoder returns
  \<open>EXIT_CODE_BAD_PARSE\<close> with the diagnostic "Bad file checksum": the code of the
  structural failures, different from the codes of success, of a short file and of a bad
  magic.
\<close>

theorem bad_checksum_is_bad_parse:
  assumes "pages fmt data = Inr v"
    and "pageBase v + 4 + 4 + 4 \<le> length data"
    and "read32Hi data (pageBase v) = Some (savedCheckSum, footerBase)"
    and "savedCheckSum \<noteq> checkSum v"
  shows "printCookiesFromMmap fmt data =
           Return EXIT_CODE_BAD_PARSE (stdout v) (''Bad file checksum'' @ [CHR 0x0A]) \<and>
         exit_value EXIT_CODE_BAD_PARSE \<notin>
           {exit_value EXIT_CODE_OK, exit_value EXIT_CODE_BAD_EOF, exit_value EXIT_CODE_BAD_MAGIC}"
  using assms by (simp add: printCookiesFromMmap_def trailer_def)

lemma bad_checksum_file_pages:
  "pages render0 bad_checksum_file =
     Inr \<lparr>first = False, checkSum = 593, pageSizeBase = 12, pageBase = 94,
          stdout = ''{\"cookies\":[{\"version\":1,\"flags\":0,\"domain\":\"x.com\",\"name\":\"a\",\"value\":\"b\",\"expiry\":0,\"creation\":0}''\<rparr>"
  by code_simp

lemma bad_checksum_file_trailer:
  "length bad_checksum_file = 106 \<and> read32Hi bad_checksum_file 94 = Some (594, 98)"
  by code_simp

theorem bad_checksum_is_bad_parse_witness:
  "pages render0 bad_checksum_file =
     Inr \<lparr>first = False, checkSum = 593, pageSizeBase = 12, pageBase = 94,
          stdout = ''{\"cookies\":[{\"version\":1,\"flags\":0,\"domain\":\"x.com\",\"name\":\"a\",\"value\":\"b\",\"expiry\":0,\"creation\":0}''\<rparr> \<and>
   94 + 4 + 4 + 4 \<le> length bad_checksum_file \<and>
   read32Hi bad_checksum_file 94 = Some (594, 98) \<and>
   (594 :: 32 word) \<noteq> 593 \<and>
   printCookiesFromMmap render0 bad_checksum_file =
     Return EXIT_CODE_BAD_PARSE
       ''{\"cookies\":[{\"version\":1,\"flags\":0,\"domain\":\"x.com\",\"name\":\"a\",\"value\":\"b\",\"expiry\":0,\"creation\":0}''
       (''Bad file checksum'' @ [CHR 0x0A])"
  using bad_checksum_is_bad_parse [OF bad_checksum_file_pages, of 594 98]
    bad_checksum_file_pages bad_checksum_file_trailer
  by simp

section \<open>The declared size of a cookie\<close>

text \<open>
  C10. Nothing compares the declared size of a cookie with the size of the header that
  has been read. \<open>zero_size_file\<close> holds a cookie of declared size 0, less than 48, and
  is decoded with \<open>EXIT_CODE_OK\<close>. And for a cookie of declared size 0 the check of the
  terminating zero looks at the byte before the cookie: whether the decoder reports
  "does not end with null terminated string" is decided by the byte at
  \<open>cookieBase - 1\<close>, which is not part of the record.
\<close>

theorem record_size_unchecked:
  assumes "read32Lo data cookieOffsetBase = Some (offset, cursor)"
    and "cookieBase = pageBase v + unat offset"
    and "cookieBase + 56 \<le> length data"
    and "readCookieHeader data cookieBase = Some h"
    and "c_cookieSize h = 0"
    and "cookieBase \<le> pageEnd"
    and "0 < cookieBase"
  shows "map_option (unat \<circ> c_cookieSize) (readCookieHeader zero_size_file 28) = Some 0 \<and>
         printCookiesFromMmap render0 zero_size_file =
           Return EXIT_CODE_OK
             ''{\"cookies\":[{\"version\":1,\"flags\":0,\"expiry\":0,\"creation\":0}]}'' [] \<and>
         (cookie fmt data pageIdx pageEnd cookieIdx cookieOffsetBase v =
            Inl (Return EXIT_CODE_BAD_PARSE (stdout v)
                  (cookieMessage cookieIdx pageIdx
                     '' does not end with null terminated string'')))
         = (data ! (cookieBase - 1) \<noteq> CHR 0x00)"
proof -
  have example: "map_option (unat \<circ> c_cookieSize) (readCookieHeader zero_size_file 28) = Some 0 \<and>
      printCookiesFromMmap render0 zero_size_file =
        Return EXIT_CODE_OK
          ''{\"cookies\":[{\"version\":1,\"flags\":0,\"expiry\":0,\"creation\":0}]}'' []"
    by code_simp
  have inside: "cookieBase - 1 < length data"
    using assms(3) by simp
  have check: "(cookie fmt data pageIdx pageEnd cookieIdx cookieOffsetBase v =
            Inl (Return EXIT_CODE_BAD_PARSE (stdout v)
                  (cookieMessage cookieIdx pageIdx
                     '' does not end with null terminated string'')))
         = (data ! (cookieBase - 1) \<noteq> CHR 0x00)"
    using assms inside
    by (auto simp: cookie_def peek_def cookieMessage_def Let_def split: option.splits)
  from example check show ?thesis by simp
qed

lemma zero_size_file_cookie:
  "read32Lo zero_size_file 20 = Some (16, 24) \<and>
   28 + 56 \<le> length zero_size_file \<and>
   readCookieHeader zero_size_file 28 =
     Some \<lparr>c_cookieSize = 0, c_version = 1, c_flags = 0, c_hasPort = 0, c_domain = 0,
            c_name = 0, c_path = 0, c_value = 0, c_comment = 0, c_commentUrl = 0,
            c_expiry = 0, c_creation = 0\<rparr> \<and>
   zero_size_file ! 27 = CHR 0x00"
  by code_simp

theorem record_size_unchecked_witness:
  "read32Lo zero_size_file 20 = Some (16, 24) \<and>
   28 + 56 \<le> length zero_size_file \<and>
   map_option (unat \<circ> c_cookieSize) (readCookieHeader zero_size_file 28) = Some 0 \<and>
   cookie render0 zero_size_file 0 84 0 20
       \<lparr>first = True, checkSum = 0, pageSizeBase = 12, pageBase = 12, stdout = ''{\"cookies\":[''\<rparr>
     \<noteq> Inl (Return EXIT_CODE_BAD_PARSE ''{\"cookies\":[''
             (cookieMessage 0 0 '' does not end with null terminated string''))"
  using record_size_unchecked [of zero_size_file 20 16 24 28
      "\<lparr>first = True, checkSum = 0, pageSizeBase = 12, pageBase = 12, stdout = ''{\"cookies\":[''\<rparr>"
      "\<lparr>c_cookieSize = 0, c_version = 1, c_flags = 0, c_hasPort = 0, c_domain = 0,
            c_name = 0, c_path = 0, c_value = 0, c_comment = 0, c_commentUrl = 0,
            c_expiry = 0, c_creation = 0\<rparr>" 84 render0 0 0]
    zero_size_file_cookie
  by simp


section \<open>What a failure leaves on standard output\<close>

text \<open>
  C3, as the claim states it: on a failure nothing would be on standard output. The
  file \<open>no_pages_file\<close> fails for its missing trailer, and the opening of the document
  has been written.
\<close>

theorem no_pages_file_partial_output:
  "printCookiesFromMmap render0 no_pages_file =
     Return EXIT_CODE_BAD_EOF ''{\"cookies\":[''
       (''File too short, for checksum, footer, and plist size'' @ [CHR 0x0A])"
  by code_simp

text \<open>
  C3, amended. When the decoder returns, the exit code is a failure exactly when a
  diagnostic went to standard error. On a failure, standard output is empty when the
  file was rejected in its header (shorter than 8 bytes, wrong magic, table of page
  sizes past the end); on every later failure it holds what had been written, which
  starts with the opening of the document.
\<close>

theorem failure_output:
  assumes "printCookiesFromMmap fmt data = Return code out err"
  shows "(code \<noteq> EXIT_CODE_OK) = (err \<noteq> []) \<and>
         (code \<noteq> EXIT_CODE_OK \<longrightarrow> headerRejected data \<longrightarrow> out = []) \<and>
         (code \<noteq> EXIT_CODE_OK \<longrightarrow> \<not> headerRejected data \<longrightarrow> prefix ''{\"cookies\":['' out)"
proof (cases "pages fmt data")
  case (Inl r)
  with assms have r: "pages fmt data = Inl (Return code out err)"
    by (simp add: printCookiesFromMmap_def)
  show ?thesis
  proof (cases "headerRejected data")
    case True
    from pages_rejected [OF True r] show ?thesis using True by simp
  next
    case False
    from pages_accepted [OF False, of fmt] r obtain pageCount where
      "pageLoop fmt data pageCount 0
         (initialVars data)
       = Inl (Return code out err)"
      by auto
    from pageLoop_Inl [OF this] show ?thesis using False by (simp add: initialVars_def)
  qed
next
  case (Inr v)
  with assms have t: "trailer data v = Return code out err"
    by (simp add: printCookiesFromMmap_def)
  have notrej: "\<not> headerRejected data"
    using pages_rejected_Inl [of data fmt] Inr by auto
  from pages_accepted [OF notrej, of fmt] Inr obtain pageCount where
    "pageLoop fmt data pageCount 0
       (initialVars data)
     = Inr v"
    by auto
  from pageLoop_Inr [OF this] have pre: "prefix ''{\"cookies\":['' (stdout v)"
    by (simp add: initialVars_def)
  from t have "(code \<noteq> EXIT_CODE_OK) = (err \<noteq> []) \<and> (code \<noteq> EXIT_CODE_OK \<longrightarrow> out = stdout v)"
    by (auto simp: trailer_def split: if_splits option.splits)
  with pre notrej show ?thesis by auto
qed

lemma no_pages_file_header:
  "\<not> headerRejected no_pages_file"
  by code_simp

theorem failure_output_witness:
  "printCookiesFromMmap render0 no_pages_file =
     Return EXIT_CODE_BAD_EOF ''{\"cookies\":[''
       (''File too short, for checksum, footer, and plist size'' @ [CHR 0x0A]) \<and>
   EXIT_CODE_BAD_EOF \<noteq> EXIT_CODE_OK \<and>
   \<not> headerRejected no_pages_file \<and>
   prefix ''{\"cookies\":['' ''{\"cookies\":[''"
proof -
  have run: "printCookiesFromMmap render0 no_pages_file =
     Return EXIT_CODE_BAD_EOF ''{\"cookies\":[''
       (''File too short, for checksum, footer, and plist size'' @ [CHR 0x0A])"
    by code_simp
  from failure_output [OF run] no_pages_file_header run show ?thesis by simp
qed


section \<open>The checksum\<close>

lemma lane_count:
  fixes e p :: nat
  assumes "p < e"
  shows "(e - p + 3) div 4 = Suc ((e - (p + 4) + 3) div 4)"
proof (cases "p + 4 \<le> e")
  case True
  then obtain x where e: "e = p + 4 + x" by (auto simp: le_iff_add)
  show ?thesis by (simp add: e)
next
  case False
  define x where "x = e - Suc p"
  from assms have e: "e = p + Suc x" by (simp add: x_def)
  from False have x: "x < 3" by (simp add: x_def)
  from x show ?thesis by (simp add: e)
qed

lemma checkSumLoop_sum:
  "checkSumLoop data pageEnd pageCursor running = Some result \<Longrightarrow>
   result = running +
     of_nat (sum_list (map (\<lambda>i. of_char (data ! (pageCursor + 4 * i)))
       [0..<(pageEnd - pageCursor + 3) div 4]))"
proof (induction data pageEnd pageCursor running rule: checkSumLoop.induct)
  case (1 data pageEnd pageCursor running)
  show ?case
  proof (cases "pageCursor < pageEnd")
    case False
    with "1.prems" show ?thesis by simp
  next
    case True
    with "1.prems" have inside: "pageCursor < length data"
      and rec: "checkSumLoop data pageEnd (pageCursor + 4) (running + of_char (data ! pageCursor))
                  = Some result"
      by (auto simp: peek_def split: if_splits)
    have peek: "peek data pageCursor = Some (data ! pageCursor)"
      using inside by (simp add: peek_def)
    from True have count: "(pageEnd - pageCursor + 3) div 4 = Suc ((pageEnd - (pageCursor + 4) + 3) div 4)"
      by (rule lane_count)
    have unfold: "\<And>f :: nat \<Rightarrow> nat. \<And>n. sum_list (map f [0..<Suc n]) = f 0 + sum_list (map (\<lambda>i. f (Suc i)) [0..<n])"
      by (simp only: upt_conv_Cons zero_less_Suc map_Suc_upt [symmetric]) (simp add: comp_def)
    from "1.IH" [OF True peek rec] show ?thesis
      by (simp only: count unfold) (simp add: algebra_simps of_nat_of_char)
  qed
qed

lemma pageStart_Suc:
  "pageStart data (Suc k) = pageStart data k + pageSizeOf data k"
  by (simp add: pageStart_def)

lemma page_layout:
  assumes "page fmt data k v = Inr v'"
    and "pageSizeBase v = 8 + 4 * k"
    and "pageBase v = pageStart data k"
  shows "pageSizeBase v' = 8 + 4 * Suc k \<and> pageBase v' = pageStart data (Suc k) \<and>
         checkSum v' = checkSum v + of_nat (laneSum data k)"
proof -
  from assms(1) obtain pageSize q cookieCount v1 running where
    rd: "read32Hi data (pageSizeBase v) = Some (pageSize, q)"
    and loop: "cookieLoop fmt data k (pageBase v + unat pageSize) cookieCount 0 (pageBase v + 8)
             (v\<lparr>pageSizeBase := q\<rparr>) = Inr v1"
    and sum: "checkSumLoop data (pageBase v + unat pageSize) (pageBase v1) (checkSum v1)
                = Some running"
    and v': "v' = v1\<lparr>checkSum := running, pageBase := pageBase v + unat pageSize\<rparr>"
    by (rule page_Inr_cases)
  from rd assms(2) have size: "pageSizeOf data k = unat pageSize" and q: "q = 8 + 4 * Suc k"
    by (auto simp: pageSizeOf_def dest: read32Hi_cursor)
  from cookieLoop_Inr [OF loop]
  have same: "checkSum v1 = checkSum v" "pageBase v1 = pageBase v" "pageSizeBase v1 = q"
    by simp_all
  from checkSumLoop_sum [OF sum] same assms(3) size
  have "running = checkSum v + of_nat (laneSum data k)"
    by (simp add: laneSum_def)
  with v' same q size assms(3) show ?thesis
    by (simp add: pageStart_Suc)
qed

lemma pageLoop_layout:
  "pageLoop fmt data pageCount k v = Inr v' \<Longrightarrow> k \<le> unat pageCount \<Longrightarrow>
   pageSizeBase v = 8 + 4 * k \<Longrightarrow> pageBase v = pageStart data k \<Longrightarrow>
   pageSizeBase v' = 8 + 4 * unat pageCount \<and>
   pageBase v' = pageStart data (unat pageCount) \<and>
   checkSum v' = checkSum v + of_nat (sum_list (map (laneSum data) [k..<unat pageCount]))"
proof (induction fmt data pageCount k v rule: pageLoop.induct)
  case (1 fmt data pageCount k v)
  show ?case
  proof (cases "k < unat pageCount")
    case False
    with "1.prems" show ?thesis by simp
  next
    case True
    with "1.prems" obtain v1 where
      step: "page fmt data k v = Inr v1"
      and rec: "pageLoop fmt data pageCount (k + 1) v1 = Inr v'"
      by (auto split: sum.splits)
    from page_layout [OF step "1.prems"(3) "1.prems"(4)]
    have inv: "pageSizeBase v1 = 8 + 4 * (k + 1)" "pageBase v1 = pageStart data (k + 1)"
      and sum: "checkSum v1 = checkSum v + of_nat (laneSum data k)"
      by simp_all
    from True have le: "k + 1 \<le> unat pageCount" by simp
    from "1.IH" [OF True step rec le inv] sum True show ?thesis
      by (simp add: upt_conv_Cons algebra_simps)
  qed
qed

lemma pageStart_ge:
  "8 + 4 * pageCountOf data \<le> pageStart data k"
  by (simp add: pageStart_def)

lemma unat_of_nat_bound:
  fixes pageCount :: "32 word"
  assumes "k \<le> unat pageCount"
  shows "unat (of_nat k :: 32 word) = k"
proof -
  have "unat pageCount < 2 ^ 32" using unsigned_less [of pageCount] by simp
  with assms have "k < 2 ^ LENGTH(32)" by simp
  with of_nat_inverse [OF refl] show ?thesis by blast
qed

lemma pageLoop_split:
  assumes "k \<le> unat pageCount"
  shows "i \<le> k \<Longrightarrow>
     pageLoop fmt d pageCount i v =
       (case pageLoop fmt d (of_nat k) i v of
          Inl r \<Rightarrow> Inl r
        | Inr vk \<Rightarrow> pageLoop fmt d pageCount k vk)"
proof (induction "k - i" arbitrary: i v)
  case 0
  then have "i = k" by simp
  then show ?case by (simp add: unat_of_nat_bound [OF assms])
next
  case (Suc n)
  then have less: "i < k" by simp
  with assms have i1: "i < unat pageCount" and i2: "i < unat (of_nat k :: 32 word)"
    by (simp_all add: unat_of_nat_bound [OF assms])
  show ?case
  proof (cases "page fmt d i v")
    case (Inl r)
    with i1 i2 show ?thesis by simp
  next
    case (Inr v')
    from Suc.hyps(2) less have "n = k - (i + 1)" and "i + 1 \<le> k" by simp_all
    from Suc.hyps(1) [OF this] Inr i1 i2 show ?thesis by simp
  qed
qed

text \<open>
  The cookie loop up to cookie \<open>i\<close>, and from there on; and a page whose header passes
  its checks.
\<close>

lemma cookieLoop_split:
  assumes "i \<le> unat cookieCount"
  shows "j \<le> i \<Longrightarrow>
     cookieLoop fmt d pageIdx pageEnd cookieCount j cob v =
       (case cookieLoop fmt d pageIdx pageEnd (of_nat i) j cob v of
          Inl r \<Rightarrow> Inl r
        | Inr vi \<Rightarrow> cookieLoop fmt d pageIdx pageEnd cookieCount i (cob + 4 * (i - j)) vi)"
proof (induction "i - j" arbitrary: j cob v)
  case 0
  then have "j = i" by simp
  then show ?case by (simp add: unat_of_nat_bound [OF assms])
next
  case (Suc n)
  then have less: "j < i" by simp
  with assms have j1: "j < unat cookieCount" and j2: "j < unat (of_nat i :: 32 word)"
    by (simp_all add: unat_of_nat_bound [OF assms])
  show ?case
  proof (cases "cookie fmt d pageIdx pageEnd j cob v")
    case (Inl r)
    with j1 j2 show ?thesis by simp
  next
    case (Inr b)
    obtain cursor v' where b: "b = (cursor, v')" by (cases b)
    from Inr b cookie_Inr [of fmt d pageIdx pageEnd j cob v cursor v']
    have cursor: "cursor = cob + 4" by simp
    from cursor less have eq: "cursor + 4 * (i - (j + 1)) = cob + 4 * (i - j)" by simp
    from Suc.hyps(2) less have "n = i - (j + 1)" and "j + 1 \<le> i" by simp_all
    from Suc.hyps(1) [OF this, of cursor v']
    have "cookieLoop fmt d pageIdx pageEnd cookieCount (j + 1) cursor v' =
       (case cookieLoop fmt d pageIdx pageEnd (of_nat i) (j + 1) cursor v' of
          Inl r \<Rightarrow> Inl r
        | Inr vi \<Rightarrow> cookieLoop fmt d pageIdx pageEnd cookieCount i (cob + 4 * (i - j)) vi)"
      unfolding eq .
    with Inr b j1 j2 show ?thesis by simp
  qed
qed

lemma page_reached:
  assumes accepted: "\<not> headerRejected data"
    and k: "k < pageCountOf data"
    and checked: "pageChecked data k"
    and sizes: "pageSizeBase v = 8 + 4 * k"
    and base: "pageBase v = pageStart data k"
  obtains cookieCount where
    "unat cookieCount = cookieCountOf data k"
    "page fmt data k v =
       (case cookieLoop fmt data k (pageStart data k + pageSizeOf data k) cookieCount 0
               (pageStart data k + 8) (v\<lparr>pageSizeBase := 8 + 4 * k + 4\<rparr>) of
          Inl r \<Rightarrow> Inl r
        | Inr v' \<Rightarrow>
            (case checkSumLoop data (pageStart data k + pageSizeOf data k) (pageBase v')
                    (checkSum v') of
               None \<Rightarrow> Inl OutOfBounds
             | Some running \<Rightarrow>
                 Inr (v'\<lparr>checkSum := running,
                         pageBase := pageStart data k + pageSizeOf data k\<rparr>)))"
proof -
  from accepted k have "8 + 4 * k + 4 \<le> length data"
    by (simp add: headerRejected_def)
  then obtain pageSize where
    rd: "read32Hi data (8 + 4 * k) = Some (pageSize, 8 + 4 * k + 4)"
    by (auto simp: read32Hi_def)
  then have size: "unat pageSize = pageSizeOf data k" by (simp add: pageSizeOf_def)
  from checked have whole: "pageStart data k + pageSizeOf data k \<le> length data"
    and room: "8 \<le> pageSizeOf data k"
    and tag: "memcmp data (pageStart data k) COOKIE_PAGE_TAG = Some False"
    and table: "headerEndStart data k + 4 \<le> pageStart data k + pageSizeOf data k"
    and ending: "memcmp data (headerEndStart data k) COOKIE_PAGE_HEADER_END = Some False"
    by (simp_all add: pageChecked_def)
  from whole room obtain cookieCount where
    cnt: "read32Lo data (pageStart data k + 4) = Some (cookieCount, pageStart data k + 8)"
    by (auto simp: read32Lo_def)
  then have count: "unat cookieCount = cookieCountOf data k" by (simp add: cookieCountOf_def)
  have pg: "page fmt data k v =
       (case cookieLoop fmt data k (pageBase v + unat pageSize) cookieCount 0
               (pageBase v + 8) (v\<lparr>pageSizeBase := 8 + 4 * k + 4\<rparr>) of
          Inl r \<Rightarrow> Inl r
        | Inr v' \<Rightarrow>
            (case checkSumLoop data (pageBase v + unat pageSize) (pageBase v') (checkSum v') of
               None \<Rightarrow> Inl OutOfBounds
             | Some running \<Rightarrow>
                 Inr (v'\<lparr>checkSum := running, pageBase := pageBase v + unat pageSize\<rparr>)))"
    using rd whole room tag cnt table ending
    by (intro page_checked)
       (simp_all add: sizes base size count headerEndStart_def mult.commute)
  show ?thesis
  proof (rule that [of cookieCount])
    show "unat cookieCount = cookieCountOf data k" by (rule count)
    show "page fmt data k v =
       (case cookieLoop fmt data k (pageStart data k + pageSizeOf data k) cookieCount 0
               (pageStart data k + 8) (v\<lparr>pageSizeBase := 8 + 4 * k + 4\<rparr>) of
          Inl r \<Rightarrow> Inl r
        | Inr v' \<Rightarrow>
            (case checkSumLoop data (pageStart data k + pageSizeOf data k) (pageBase v')
                    (checkSum v') of
               None \<Rightarrow> Inl OutOfBounds
             | Some running \<Rightarrow>
                 Inr (v'\<lparr>checkSum := running,
                         pageBase := pageStart data k + pageSizeOf data k\<rparr>)))"
      using pg unfolding base size .
  qed
qed

text \<open>
  C5. When the header and all pages pass, the running checksum the decoder holds is the
  sum of the specification: over every page, the bytes at the offsets 0, 4, 8, ... of the
  page, modulo \<open>2 ^ 32\<close>. The trailer starts where the specification places it; the saved
  checksum is read there big-endian, and when it differs from that sum (the twelve
  bytes of the trailer being there) the decoder fails.
\<close>

theorem checksum_refinement:
  assumes "pages fmt data = Inr v"
  shows "checkSum v = specChecksum data \<and> pageBase v = pagesEnd data \<and>
         (\<forall>saved cursor.
            pagesEnd data + 4 + 4 + 4 \<le> length data \<and>
            read32Hi data (pagesEnd data) = Some (saved, cursor) \<and>
            saved \<noteq> specChecksum data \<longrightarrow>
            printCookiesFromMmap fmt data =
              Return EXIT_CODE_BAD_PARSE (stdout v) (''Bad file checksum'' @ [CHR 0x0A]))"
proof -
  have notrej: "\<not> headerRejected data"
    using pages_rejected_Inl [of data fmt] assms by auto
  from pages_accepted [OF notrej, of fmt] assms obtain pageCount where
    loop: "pageLoop fmt data pageCount 0
       (initialVars data)
     = Inr v"
    and count: "unat pageCount = pageCountOf data"
    by auto
  from pageLoop_layout [OF loop] count
  have base: "pageBase v = pagesEnd data"
    and sum: "checkSum v = of_nat (sum_list (map (laneSum data) [0..<pageCountOf data]))"
    by (simp_all add: pageStart_def pagesEnd_def initialVars_def)
  from sum have spec: "checkSum v = specChecksum data"
    by (simp add: specChecksum_def word_of_nat_eq_iff take_bit_eq_mod)
  show ?thesis
    using assms base spec
    by (auto simp: printCookiesFromMmap_def trailer_def)
qed

lemma scenario_file_pages:
  "pages render0 scenario_file =
     Inr \<lparr>first = False, checkSum = 593, pageSizeBase = 12, pageBase = 94,
          stdout = ''{\"cookies\":[{\"version\":1,\"flags\":0,\"domain\":\"x.com\",\"name\":\"a\",\"value\":\"b\",\"expiry\":0,\"creation\":0}''\<rparr>"
  by code_simp

theorem checksum_refinement_witness:
  "pages render0 scenario_file =
     Inr \<lparr>first = False, checkSum = 593, pageSizeBase = 12, pageBase = 94,
          stdout = ''{\"cookies\":[{\"version\":1,\"flags\":0,\"domain\":\"x.com\",\"name\":\"a\",\"value\":\"b\",\"expiry\":0,\"creation\":0}''\<rparr> \<and>
   specChecksum scenario_file = 593 \<and> pagesEnd scenario_file = 94"
  using checksum_refinement [OF scenario_file_pages] scenario_file_pages
  by simp


section \<open>Absent string fields\<close>

lemma keysFrom_skip:
  "CHR 0x22 \<notin> set s \<Longrightarrow> keysFrom Plain (s @ rest) = keysFrom Plain rest"
  by (induction s) auto

lemma decimal_digits:
  "set (decimal n) \<subseteq> set ''0123456789''"
proof (induction n rule: decimal.induct)
  case (1 n)
  have digit: "\<And>d. d < 10 \<Longrightarrow> ''0123456789'' ! d \<in> set ''0123456789''"
    by (rule nth_mem) simp
  show ?case
  proof (cases "n < 10")
    case True
    then show ?thesis
      using digit [of n] by (subst decimal.simps) simp
  next
    case False
    have "n mod 10 < 10" by simp
    from digit [OF this] "1.IH" [OF False] False show ?thesis
      by (subst decimal.simps) simp
  qed
qed

lemma printf_d_no_quote:
  "CHR 0x22 \<notin> set (printf_d i)"
  using decimal_digits [of "nat i"] decimal_digits [of "nat (- i)"]
  by (auto simp: printf_d_def)

lemma hex_digit:
  assumes "i < 16"
  shows "''0123456789ABCDEF'' ! i \<noteq> CHR 0x22 \<and> ''0123456789ABCDEF'' ! i \<noteq> CHR 0x5C"
proof -
  from assms have "''0123456789ABCDEF'' ! i \<in> set ''0123456789ABCDEF''"
    by (intro nth_mem) simp
  then show ?thesis by auto
qed

text \<open>What one byte of a string becomes stays inside the string.\<close>

lemma keysFrom_byte:
  "keysFrom (InString a) (emitJsonByte byte @ rest) =
   keysFrom (InString (a @ emitJsonByte byte)) rest"
proof -
  have h1: "(of_char byte :: nat) div 16 < 16"
    by (rule less_mult_imp_div_less) simp
  have h2: "(of_char byte :: nat) mod 16 < 16" by simp
  show ?thesis
    using hex_digit [OF h1] hex_digit [OF h2]
    by (simp add: emitJsonByte_def emitJsonCharEscapedPretty_def emitJsonCharEscapedUgly_def)
qed

lemma keysFrom_body:
  "emitJsonStringLoop mem = Some body \<Longrightarrow>
   keysFrom (InString a) (body @ CHR 0x22 # rest) = keysFrom (Closed (a @ body)) rest"
proof (induction mem arbitrary: body a)
  case Nil
  then show ?case by simp
next
  case (Cons byte mem)
  show ?case
  proof (cases "byte = CHR 0x00")
    case True
    with Cons.prems show ?thesis by simp
  next
    case False
    with Cons.prems obtain body' where
      rest: "emitJsonStringLoop mem = Some body'" and body: "body = emitJsonByte byte @ body'"
      by auto
    from Cons.IH [OF rest, of "a @ emitJsonByte byte"] show ?thesis
      by (simp add: body keysFrom_byte)
  qed
qed

text \<open>A string that a comma follows is not a key; a name that a colon follows is one.\<close>

lemma keysFrom_value:
  "emitJsonString mem = Some s \<Longrightarrow>
   keysFrom Plain (s @ CHR '','' # rest) = keysFrom Plain rest"
  by (auto simp: emitJsonString_def keysFrom_body)

lemma keysFrom_name:
  "emitJsonString (literal name) = Some s \<Longrightarrow> emitJsonStringLoop (literal name) = Some name \<Longrightarrow>
   keysFrom Plain (s @ CHR '':'' # rest) = name # keysFrom Plain rest"
  by (auto simp: emitJsonString_def keysFrom_body)

lemma literal_names:
  "emitJsonStringLoop (literal ''version'') = Some ''version''"
  "emitJsonStringLoop (literal ''flags'') = Some ''flags''"
  "emitJsonStringLoop (literal ''domain'') = Some ''domain''"
  "emitJsonStringLoop (literal ''name'') = Some ''name''"
  "emitJsonStringLoop (literal ''path'') = Some ''path''"
  "emitJsonStringLoop (literal ''value'') = Some ''value''"
  "emitJsonStringLoop (literal ''comment'') = Some ''comment''"
  "emitJsonStringLoop (literal ''commentUrl'') = Some ''commentUrl''"
  "emitJsonStringLoop (literal ''expiry'') = Some ''expiry''"
  "emitJsonStringLoop (literal ''creation'') = Some ''creation''"
  by (simp_all add: literal_def emitJsonByte_def)

text \<open>
  An optional member in front of a text that starts with a comma: the whole starts with
  a comma again, and the member adds its key exactly when the offset is not zero.
\<close>

lemma optional_member:
  assumes "emitJsonOptionalSeparatedNamedValueString present (literal name) mem = Some m"
    and "emitJsonStringLoop (literal name) = Some name"
  shows "\<exists>y'. m @ CHR '','' # y = CHR '','' # y' \<and>
           keysFrom Plain y' = (if present \<noteq> 0 then [name] else []) @ keysFrom Plain y"
proof (cases "present = 0")
  case True
  with assms show ?thesis
    by (simp add: emitJsonOptionalSeparatedNamedValueString_def)
next
  case False
  with assms(1) obtain n s where
    n: "emitJsonString (literal name) = Some n" and s: "emitJsonString mem = Some s"
    and m: "m = CHR '','' # n @ CHR '':'' # s"
    by (auto simp: emitJsonOptionalSeparatedNamedValueString_def emitJsonValueSeparator_def
        emitJsonNameSeparator_def split: Option.bind_splits)
  have "keysFrom Plain (n @ CHR '':'' # s @ CHR '','' # y) = name # keysFrom Plain y"
    using keysFrom_name [OF n assms(2)] keysFrom_value [OF s] by simp
  with False m show ?thesis by simp
qed

lemma int_member:
  assumes "emitJsonNamedValueInt (literal name) x = Some m"
    and "emitJsonStringLoop (literal name) = Some name"
  shows "keysFrom Plain (m @ rest) = name # keysFrom Plain rest"
proof -
  from assms(1) obtain n where
    n: "emitJsonString (literal name) = Some n" and m: "m = n @ CHR '':'' # printf_d (sint x)"
    by (auto simp: emitJsonNamedValueInt_def emitJsonNameSeparator_def emitJsonNumberInt_def
        split: Option.bind_splits)
  show ?thesis
    using keysFrom_name [OF n assms(2)] keysFrom_skip [OF printf_d_no_quote]
    by (simp add: m)
qed

lemma double_member:
  assumes "emitJsonSeparatedNamedValueDouble fmt (literal name) x = Some m"
    and "emitJsonStringLoop (literal name) = Some name"
    and "CHR 0x22 \<notin> set (fmt x)"
  shows "\<exists>y'. m @ rest = CHR '','' # y' \<and> keysFrom Plain y' = name # keysFrom Plain rest"
proof -
  from assms(1) obtain n where
    n: "emitJsonString (literal name) = Some n" and m: "m = CHR '','' # n @ CHR '':'' # fmt x"
    by (auto simp: emitJsonSeparatedNamedValueDouble_def emitJsonNameSeparator_def
        emitJsonNumberDouble_def emitJsonValueSeparator_def split: Option.bind_splits)
  show ?thesis
    using keysFrom_name [OF n assms(2)] keysFrom_skip [OF assms(3)]
    by (simp add: m)
qed

text \<open>
  The keys of the object that \<open>emitCookie\<close> writes for a header: \<open>version\<close> and
  \<open>flags\<close>, then those of \<open>domain\<close>, \<open>name\<close>, \<open>path\<close>, \<open>value\<close>, \<open>comment\<close> and
  \<open>commentUrl\<close> whose offset in the header is not zero, in this order, then \<open>expiry\<close>
  and \<open>creation\<close>.
\<close>

lemma emitCookie_keys:
  assumes "emitCookie fmt data cookieBase h = Some object"
    and "\<forall>w. CHR 0x22 \<notin> set (fmt w)"
  shows "memberKeys object =
           [''version'', ''flags'']
           @ (if c_domain h \<noteq> 0 then [''domain''] else [])
           @ (if c_name h \<noteq> 0 then [''name''] else [])
           @ (if c_path h \<noteq> 0 then [''path''] else [])
           @ (if c_value h \<noteq> 0 then [''value''] else [])
           @ (if c_comment h \<noteq> 0 then [''comment''] else [])
           @ (if c_commentUrl h \<noteq> 0 then [''commentUrl''] else [])
           @ [''expiry'', ''creation'']"
proof -
  from assms(1) obtain version flags domain name path val comment commentUrl expiry creation
    where version: "emitJsonNamedValueInt (literal ''version'') (c_version h) = Some version"
      and flags: "emitJsonSeparatedNamedValueInt (literal ''flags'') (c_flags h) = Some flags"
      and domain: "emitJsonOptionalSeparatedNamedValueString (c_domain h) (literal ''domain'')
                     (drop (cookieBase + unat (c_domain h)) data) = Some domain"
      and name: "emitJsonOptionalSeparatedNamedValueString (c_name h) (literal ''name'')
                     (drop (cookieBase + unat (c_name h)) data) = Some name"
      and path: "emitJsonOptionalSeparatedNamedValueString (c_path h) (literal ''path'')
                     (drop (cookieBase + unat (c_path h)) data) = Some path"
      and val: "emitJsonOptionalSeparatedNamedValueString (c_value h) (literal ''value'')
                     (drop (cookieBase + unat (c_value h)) data) = Some val"
      and comment: "emitJsonOptionalSeparatedNamedValueString (c_comment h) (literal ''comment'')
                     (drop (cookieBase + unat (c_comment h)) data) = Some comment"
      and commentUrl: "emitJsonOptionalSeparatedNamedValueString (c_commentUrl h)
                     (literal ''commentUrl'') (drop (cookieBase + unat (c_commentUrl h)) data)
                     = Some commentUrl"
      and expiry: "emitJsonSeparatedNamedValueDouble fmt (literal ''expiry'') (c_expiry h)
                     = Some expiry"
      and creation: "emitJsonSeparatedNamedValueDouble fmt (literal ''creation'') (c_creation h)
                     = Some creation"
      and object: "object = ''{'' @ version @ flags @ domain @ name @ path @ val @ comment
                     @ commentUrl @ expiry @ creation @ ''}''"
    unfolding emitCookie_def bind_eq_Some_conv emitJsonBeginObject_def emitJsonEndObject_def
    by (elim exE conjE) auto
  from assms(2) have q1: "CHR 0x22 \<notin> set (fmt (c_expiry h))"
    and q2: "CHR 0x22 \<notin> set (fmt (c_creation h))" by simp_all
  from double_member [OF creation literal_names(10) q2, of "''}''"]
  obtain y10 where
    c10: "creation @ ''}'' = CHR '','' # y10" and k10: "keysFrom Plain y10 = [''creation'']"
    by auto
  from double_member [OF expiry literal_names(9) q1, of "CHR '','' # y10"]
  obtain y9 where
    c9: "expiry @ CHR '','' # y10 = CHR '','' # y9"
    and k9: "keysFrom Plain y9 = [''expiry'', ''creation'']"
    using k10 by auto
  from optional_member [OF commentUrl literal_names(8), of y9]
  obtain y8 where
    c8: "commentUrl @ CHR '','' # y9 = CHR '','' # y8"
    and k8: "keysFrom Plain y8 =
      (if c_commentUrl h \<noteq> 0 then [''commentUrl''] else []) @ keysFrom Plain y9"
    by auto
  from optional_member [OF comment literal_names(7), of y8]
  obtain y7 where
    c7: "comment @ CHR '','' # y8 = CHR '','' # y7"
    and k7: "keysFrom Plain y7 =
      (if c_comment h \<noteq> 0 then [''comment''] else []) @ keysFrom Plain y8"
    by auto
  from optional_member [OF val literal_names(6), of y7]
  obtain y6 where
    c6: "val @ CHR '','' # y7 = CHR '','' # y6"
    and k6: "keysFrom Plain y6 =
      (if c_value h \<noteq> 0 then [''value''] else []) @ keysFrom Plain y7"
    by auto
  from optional_member [OF path literal_names(5), of y6]
  obtain y5 where
    c5: "path @ CHR '','' # y6 = CHR '','' # y5"
    and k5: "keysFrom Plain y5 =
      (if c_path h \<noteq> 0 then [''path''] else []) @ keysFrom Plain y6"
    by auto
  from optional_member [OF name literal_names(4), of y5]
  obtain y4 where
    c4: "name @ CHR '','' # y5 = CHR '','' # y4"
    and k4: "keysFrom Plain y4 =
      (if c_name h \<noteq> 0 then [''name''] else []) @ keysFrom Plain y5"
    by auto
  from optional_member [OF domain literal_names(3), of y4]
  obtain y3 where
    c3: "domain @ CHR '','' # y4 = CHR '','' # y3"
    and k3: "keysFrom Plain y3 =
      (if c_domain h \<noteq> 0 then [''domain''] else []) @ keysFrom Plain y4"
    by auto
  from flags obtain nv where
    nv: "emitJsonNamedValueInt (literal ''flags'') (c_flags h) = Some nv"
    and f: "flags = CHR '','' # nv"
    by (auto simp: emitJsonSeparatedNamedValueInt_def emitJsonValueSeparator_def
        split: Option.bind_splits)
  have shape: "object = ''{'' @ version @ CHR '','' # nv @ CHR '','' # y3"
    using c3 c4 c5 c6 c7 c8 c9 c10 by (simp add: object f)
  have "keysFrom Plain object = ''version'' # ''flags'' # keysFrom Plain y3"
    using int_member [OF version literal_names(1)] int_member [OF nv literal_names(2)]
    by (simp add: shape)
  with k3 k4 k5 k6 k7 k8 k9 show ?thesis
    by (simp add: memberKeys_def)
qed

text \<open>
  C7. For every cookie the decoder gets through, with its header read from the buffer at
  the cookie's start, what the decoder appends to its output is a separating comma (not
  before the first cookie) and an object whose keys are \<open>version\<close> and \<open>flags\<close>, then
  those of \<open>domain\<close>, \<open>name\<close>, \<open>path\<close>, \<open>value\<close>, \<open>comment\<close> and \<open>commentUrl\<close> whose
  offset, the 32-bit little-endian number at the bytes 16, 20, 24, 28, 32 and 36 of the
  header, is not zero, in this order, then \<open>expiry\<close> and \<open>creation\<close>: the key of a field
  is there exactly when its offset is not zero, and a field with offset zero is not
  rendered at all. (A rendering of a double holds no quotation mark.)
\<close>

theorem absent_fields_omitted:
  assumes decoded:
      "cookie fmt data pageIdx pageEnd cookieIdx cookieOffsetBase v = Inr (cursor, v')"
    and quotes: "\<forall>w. CHR 0x22 \<notin> set (fmt w)"
  shows "\<exists>offset cookieBase h object.
           read32Lo data cookieOffsetBase = Some (offset, cursor) \<and>
           cookieBase = pageBase v + unat offset \<and>
           readCookieHeader data cookieBase = Some h \<and>
           read32Lo data (cookieBase + 16) = Some (c_domain h, cookieBase + 20) \<and>
           read32Lo data (cookieBase + 20) = Some (c_name h, cookieBase + 24) \<and>
           read32Lo data (cookieBase + 24) = Some (c_path h, cookieBase + 28) \<and>
           read32Lo data (cookieBase + 28) = Some (c_value h, cookieBase + 32) \<and>
           read32Lo data (cookieBase + 32) = Some (c_comment h, cookieBase + 36) \<and>
           read32Lo data (cookieBase + 36) = Some (c_commentUrl h, cookieBase + 40) \<and>
           stdout v' = stdout v @ (if first v then [] else '','') @ object \<and>
           memberKeys object =
             [''version'', ''flags'']
             @ (if c_domain h \<noteq> 0 then [''domain''] else [])
             @ (if c_name h \<noteq> 0 then [''name''] else [])
             @ (if c_path h \<noteq> 0 then [''path''] else [])
             @ (if c_value h \<noteq> 0 then [''value''] else [])
             @ (if c_comment h \<noteq> 0 then [''comment''] else [])
             @ (if c_commentUrl h \<noteq> 0 then [''commentUrl''] else [])
             @ [''expiry'', ''creation'']"
proof -
  from decoded obtain offset h object where
    rd: "read32Lo data cookieOffsetBase = Some (offset, cursor)"
    and hd: "readCookieHeader data (pageBase v + unat offset) = Some h"
    and em: "emitCookie fmt data (pageBase v + unat offset) h = Some object"
    and v': "v' = v\<lparr>first := False,
            stdout := stdout v @ (if first v then [] else emitJsonValueSeparator) @ object\<rparr>"
    by (rule cookie_decoded)
  from v' have out: "stdout v' = stdout v @ (if first v then [] else '','') @ object"
    by (simp add: emitJsonValueSeparator_def)
  show ?thesis
    using rd hd readCookieHeader_fields [OF hd] out emitCookie_keys [OF em quotes]
    by blast
qed

lemma scenario_cookie:
  "cookie render0 scenario_file 0 94 0 20
     \<lparr>first = True, checkSum = 0, pageSizeBase = 12, pageBase = 12,
      stdout = ''{\"cookies\":[''\<rparr> =
   Inr (24, \<lparr>first = False, checkSum = 0, pageSizeBase = 12, pageBase = 12,
             stdout = ''{\"cookies\":[{\"version\":1,\"flags\":0,\"domain\":\"x.com\",\"name\":\"a\",\"value\":\"b\",\"expiry\":0,\"creation\":0}''\<rparr>)"
  by code_simp

lemma scenario_header:
  "readCookieHeader scenario_file 28 =
     Some \<lparr>c_cookieSize = 66, c_version = 1, c_flags = 0, c_hasPort = 0, c_domain = 56,
      c_name = 62, c_path = 0, c_value = 64, c_comment = 0, c_commentUrl = 0,
      c_expiry = 0, c_creation = 0\<rparr>"
  by code_simp

lemma scenario_offset:
  "read32Lo scenario_file 20 = Some (16, 24)"
  by code_simp

theorem absent_fields_omitted_witness:
  "cookie render0 scenario_file 0 94 0 20
     \<lparr>first = True, checkSum = 0, pageSizeBase = 12, pageBase = 12,
      stdout = ''{\"cookies\":[''\<rparr> =
   Inr (24, \<lparr>first = False, checkSum = 0, pageSizeBase = 12, pageBase = 12,
             stdout = ''{\"cookies\":[{\"version\":1,\"flags\":0,\"domain\":\"x.com\",\"name\":\"a\",\"value\":\"b\",\"expiry\":0,\"creation\":0}''\<rparr>) \<and>
   (\<forall>w. CHR 0x22 \<notin> set (render0 w)) \<and>
   readCookieHeader scenario_file 28 =
     Some \<lparr>c_cookieSize = 66, c_version = 1, c_flags = 0, c_hasPort = 0, c_domain = 56,
      c_name = 62, c_path = 0, c_value = 64, c_comment = 0, c_commentUrl = 0,
      c_expiry = 0, c_creation = 0\<rparr> \<and>
   memberKeys ''{\"version\":1,\"flags\":0,\"domain\":\"x.com\",\"name\":\"a\",\"value\":\"b\",\"expiry\":0,\"creation\":0}''
     = [''version'', ''flags'', ''domain'', ''name'', ''value'', ''expiry'', ''creation'']"
proof -
  have quotes: "\<forall>w. CHR 0x22 \<notin> set (render0 w)"
    by (simp add: render0_def)
  from absent_fields_omitted [OF scenario_cookie quotes] scenario_cookie scenario_header
    scenario_offset quotes
  show ?thesis by auto
qed

section \<open>A longer buffer with the same beginning\<close>

text \<open>
  What the decoder does on a buffer \<open>t\<close> it does on every buffer \<open>t @ rest\<close>, unless the
  end of \<open>t\<close> is what stopped it. First the readers.
\<close>

lemma peek_append:
  "peek t i = Some b \<Longrightarrow> peek (t @ rest) i = Some b"
  by (auto simp: peek_def nth_append split: if_splits)

lemma memcmp_append:
  "memcmp t p bytes = Some d \<Longrightarrow> memcmp (t @ rest) p bytes = Some d"
  by (auto simp: memcmp_def split: if_splits)

text \<open>A reader sees only the bytes at its cursor.\<close>

lemma read32Hi_eqI:
  assumes "p + 4 \<le> length d1" and "p + 4 \<le> length d2"
    and "\<And>i. i < 4 \<Longrightarrow> d1 ! (p + i) = d2 ! (p + i)"
  shows "read32Hi d1 p = read32Hi d2 p"
proof -
  have "foldl (\<lambda>result i. push_bit 8 result + of_char (d1 ! (p + i))) (0 :: 32 word) [0..<4] =
        foldl (\<lambda>result i. push_bit 8 result + of_char (d2 ! (p + i))) 0 [0..<4]"
    by (rule foldl_cong) (simp_all add: assms(3))
  with assms(1,2) show ?thesis by (simp add: read32Hi_def)
qed

lemma read32Lo_eqI:
  assumes "p + 4 \<le> length d1" and "p + 4 \<le> length d2"
    and "\<And>i. i < 4 \<Longrightarrow> d1 ! (p + i) = d2 ! (p + i)"
  shows "read32Lo d1 p = read32Lo d2 p"
proof -
  have "foldl (\<lambda>result i. result + push_bit (i * 8) (of_char (d1 ! (p + i)))) (0 :: 32 word) [0..<4] =
        foldl (\<lambda>result i. result + push_bit (i * 8) (of_char (d2 ! (p + i)))) 0 [0..<4]"
    by (rule foldl_cong) (simp_all add: assms(3))
  with assms(1,2) show ?thesis by (simp add: read32Lo_def)
qed

lemma read64Lo_eqI:
  assumes "p + 8 \<le> length d1" and "p + 8 \<le> length d2"
    and "\<And>i. i < 8 \<Longrightarrow> d1 ! (p + i) = d2 ! (p + i)"
  shows "read64Lo d1 p = read64Lo d2 p"
proof -
  have "foldl (\<lambda>result i. result + push_bit (i * 8) (of_char (d1 ! (p + i)))) (0 :: 64 word) [0..<8] =
        foldl (\<lambda>result i. result + push_bit (i * 8) (of_char (d2 ! (p + i)))) 0 [0..<8]"
    by (rule foldl_cong) (simp_all add: assms(3))
  with assms(1,2) show ?thesis by (simp add: read64Lo_def)
qed

lemma read32Hi_append:
  assumes "read32Hi t p = Some x"
  shows "read32Hi (t @ rest) p = Some x"
proof -
  from assms have "p + 4 \<le> length t" by (cases x) (auto dest: read32Hi_cursor)
  then have "read32Hi (t @ rest) p = read32Hi t p"
    by (intro read32Hi_eqI) (simp_all add: nth_append)
  with assms show ?thesis by simp
qed

lemma read32Lo_append:
  assumes "read32Lo t p = Some x"
  shows "read32Lo (t @ rest) p = Some x"
proof -
  from assms have "p + 4 \<le> length t" by (cases x) (auto dest: read32Lo_cursor)
  then have "read32Lo (t @ rest) p = read32Lo t p"
    by (intro read32Lo_eqI) (simp_all add: nth_append)
  with assms show ?thesis by simp
qed

lemma read64Lo_append:
  assumes "read64Lo t p = Some x"
  shows "read64Lo (t @ rest) p = Some x"
proof -
  from assms have "p + 8 \<le> length t" by (auto simp: read64Lo_def split: if_splits)
  then have "read64Lo (t @ rest) p = read64Lo t p"
    by (intro read64Lo_eqI) (simp_all add: nth_append)
  with assms show ?thesis by simp
qed

lemma read32Lo_both:
  assumes "q + 4 \<le> length d1" and "q + 4 \<le> length d2"
    and "\<And>i. i < 4 \<Longrightarrow> d1 ! (q + i) = d2 ! (q + i)"
  shows "\<exists>x. read32Lo d1 q = Some (x, q + 4) \<and> read32Lo d2 q = Some (x, q + 4)"
  using read32Lo_eqI [OF assms] assms(1,2) by (simp add: read32Lo_def)

lemma read64Lo_both:
  assumes "q + 8 \<le> length d1" and "q + 8 \<le> length d2"
    and "\<And>i. i < 8 \<Longrightarrow> d1 ! (q + i) = d2 ! (q + i)"
  shows "\<exists>x. read64Lo d1 q = Some (x, q + 8) \<and> read64Lo d2 q = Some (x, q + 8)"
  using read64Lo_eqI [OF assms] assms(1,2) by (simp add: read64Lo_def)

lemma readCookieHeader_eqI:
  assumes l1: "p + 56 \<le> length d1" and l2: "p + 56 \<le> length d2"
    and same: "\<And>i. i < 56 \<Longrightarrow> d1 ! (p + i) = d2 ! (p + i)"
  shows "readCookieHeader d1 p = readCookieHeader d2 p"
proof -
  have at: "\<And>k i. k + i < 56 \<Longrightarrow> d1 ! (p + k + i) = d2 ! (p + k + i)"
    using same by (simp add: add.assoc)
  obtain x0 where r0: "read32Lo d1 p = Some (x0, p + 4)" "read32Lo d2 p = Some (x0, p + 4)"
    using read32Lo_both [of p d1 d2] l1 l2 at [of 0] by auto
  obtain x1 where r1: "read32Lo d1 (p + 4) = Some (x1, p + 8)" "read32Lo d2 (p + 4) = Some (x1, p + 8)"
    using read32Lo_both [of "p + 4" d1 d2] l1 l2 at [of 4] by auto
  obtain x2 where r2: "read32Lo d1 (p + 8) = Some (x2, p + 12)" "read32Lo d2 (p + 8) = Some (x2, p + 12)"
    using read32Lo_both [of "p + 8" d1 d2] l1 l2 at [of 8] by auto
  obtain x3 where r3: "read32Lo d1 (p + 12) = Some (x3, p + 16)" "read32Lo d2 (p + 12) = Some (x3, p + 16)"
    using read32Lo_both [of "p + 12" d1 d2] l1 l2 at [of 12] by auto
  obtain x4 where r4: "read32Lo d1 (p + 16) = Some (x4, p + 20)" "read32Lo d2 (p + 16) = Some (x4, p + 20)"
    using read32Lo_both [of "p + 16" d1 d2] l1 l2 at [of 16] by auto
  obtain x5 where r5: "read32Lo d1 (p + 20) = Some (x5, p + 24)" "read32Lo d2 (p + 20) = Some (x5, p + 24)"
    using read32Lo_both [of "p + 20" d1 d2] l1 l2 at [of 20] by auto
  obtain x6 where r6: "read32Lo d1 (p + 24) = Some (x6, p + 28)" "read32Lo d2 (p + 24) = Some (x6, p + 28)"
    using read32Lo_both [of "p + 24" d1 d2] l1 l2 at [of 24] by auto
  obtain x7 where r7: "read32Lo d1 (p + 28) = Some (x7, p + 32)" "read32Lo d2 (p + 28) = Some (x7, p + 32)"
    using read32Lo_both [of "p + 28" d1 d2] l1 l2 at [of 28] by auto
  obtain x8 where r8: "read32Lo d1 (p + 32) = Some (x8, p + 36)" "read32Lo d2 (p + 32) = Some (x8, p + 36)"
    using read32Lo_both [of "p + 32" d1 d2] l1 l2 at [of 32] by auto
  obtain x9 where r9: "read32Lo d1 (p + 36) = Some (x9, p + 40)" "read32Lo d2 (p + 36) = Some (x9, p + 40)"
    using read32Lo_both [of "p + 36" d1 d2] l1 l2 at [of 36] by auto
  obtain y0 where s0: "read64Lo d1 (p + 40) = Some (y0, p + 48)" "read64Lo d2 (p + 40) = Some (y0, p + 48)"
    using read64Lo_both [of "p + 40" d1 d2] l1 l2 at [of 40] by auto
  obtain y1 where s1: "read64Lo d1 (p + 48) = Some (y1, p + 56)" "read64Lo d2 (p + 48) = Some (y1, p + 56)"
    using read64Lo_both [of "p + 48" d1 d2] l1 l2 at [of 48] by auto
  show ?thesis
    by (simp add: readCookieHeader_def readDouble_def r0 r1 r2 r3 r4 r5 r6 r7 r8 r9 s0 s1)
qed

lemma readCookieHeader_append:
  assumes "p + 56 \<le> length t"
  shows "readCookieHeader (t @ rest) p = readCookieHeader t p"
  using assms by (intro readCookieHeader_eqI) (simp_all add: nth_append)

lemma emitJsonStringLoop_append:
  "emitJsonStringLoop mem = Some s \<Longrightarrow> emitJsonStringLoop (mem @ rest) = Some s"
  by (induction mem arbitrary: s) (auto split: if_splits)

lemma emitJsonString_append:
  "emitJsonString (drop p t) = Some s \<Longrightarrow> emitJsonString (drop p (t @ rest)) = Some s"
  by (auto simp: emitJsonString_def emitJsonStringLoop_append)

lemma optional_append:
  "emitJsonOptionalSeparatedNamedValueString present name (drop p t) = Some s \<Longrightarrow>
   emitJsonOptionalSeparatedNamedValueString present name (drop p (t @ rest)) = Some s"
  unfolding emitJsonOptionalSeparatedNamedValueString_def
  by (cases "present = 0")
    (auto simp: bind_eq_Some_conv emitJsonString_append simp del: drop_append)

lemma emitCookie_append:
  assumes "emitCookie fmt t cookieBase h = Some object"
  shows "emitCookie fmt (t @ rest) cookieBase h = Some object"
  using assms
  unfolding emitCookie_def bind_eq_Some_conv
  by (elim exE conjE) (auto simp: optional_append simp del: drop_append)

text \<open>The cookie loop.\<close>

lemma cutShort_header:
  "cutShort (Return EXIT_CODE_BAD_PARSE out
     (cookieMessage cookieIdx pageIdx '' too short for cookie header''))"
proof -
  have "cookieMessage cookieIdx pageIdx '' too short for cookie header'' =
      (''Cookie '' @ printf_d (int cookieIdx) @ '' in Page '' @ printf_d (int pageIdx))
      @ ('' too short for cookie header'' @ [CHR 0x0A])"
    by (simp add: cookieMessage_def)
  then have "suffix ('' too short for cookie header'' @ [CHR 0x0A])
      (cookieMessage cookieIdx pageIdx '' too short for cookie header'')"
    by (simp only: suffixI)
  then show ?thesis by (simp add: cutShort_def)
qed

lemma cutShort_simps [simp]:
  "cutShort OutOfBounds" "cutShort (Return EXIT_CODE_BAD_EOF out err)"
  by (simp_all add: cutShort_def)

lemma cookie_append:
  assumes complete: "\<And>r. cookie fmt t pageIdx pageEnd cookieIdx cookieOffsetBase v = Inl r
                      \<Longrightarrow> \<not> cutShort r"
  shows "cookie fmt (t @ rest) pageIdx pageEnd cookieIdx cookieOffsetBase v =
         cookie fmt t pageIdx pageEnd cookieIdx cookieOffsetBase v"
proof (cases "read32Lo t cookieOffsetBase")
  case None
  then have "cookie fmt t pageIdx pageEnd cookieIdx cookieOffsetBase v = Inl OutOfBounds"
    by (simp add: cookie_def)
  from complete [OF this] show ?thesis by simp
next
  case (Some x)
  obtain offset cursor where x: "x = (offset, cursor)" by (cases x)
  from Some x have rd: "read32Lo t cookieOffsetBase = Some (offset, cursor)" by simp
  then have rd': "read32Lo (t @ rest) cookieOffsetBase = Some (offset, cursor)"
    by (rule read32Lo_append)
  show ?thesis
  proof (cases "length t < pageBase v + unat offset + 56")
    case True
    with rd have "cookie fmt t pageIdx pageEnd cookieIdx cookieOffsetBase v =
        Inl (Return EXIT_CODE_BAD_PARSE (stdout v)
              (cookieMessage cookieIdx pageIdx '' too short for cookie header''))"
      by (simp add: cookie_def)
    from complete [OF this] show ?thesis by (simp add: cutShort_header)
  next
    case False
    then have fits: "pageBase v + unat offset + 56 \<le> length t" by simp
    then have hdr': "readCookieHeader (t @ rest) (pageBase v + unat offset) =
                     readCookieHeader t (pageBase v + unat offset)"
      by (rule readCookieHeader_append)
    show ?thesis
    proof (cases "cookie fmt t pageIdx pageEnd cookieIdx cookieOffsetBase v = Inl OutOfBounds")
      case True
      from complete [OF this] show ?thesis by simp
    next
      case inside: False
      show ?thesis
      proof (cases "readCookieHeader t (pageBase v + unat offset)")
        case None
        with rd fits inside show ?thesis by (simp add: cookie_def)
      next
        case (Some h)
        from inside rd fits Some
        have body: "(case (if pageBase v + unat offset + unat (c_cookieSize h) = 0 then None
                      else peek t (pageBase v + unat offset + unat (c_cookieSize h) - 1)) of
                  None \<Rightarrow> False
                | Some lastByte \<Rightarrow>
                    pageEnd < pageBase v + unat offset + unat (c_cookieSize h) \<or>
                    lastByte \<noteq> CHR 0x00 \<or>
                    pageBase v + unat offset + unat (c_cookieSize h)
                      < pageBase v + unat offset + unat (c_domain h) \<or>
                    pageBase v + unat offset + unat (c_cookieSize h)
                      < pageBase v + unat offset + unat (c_name h) \<or>
                    pageBase v + unat offset + unat (c_cookieSize h)
                      < pageBase v + unat offset + unat (c_path h) \<or>
                    pageBase v + unat offset + unat (c_cookieSize h)
                      < pageBase v + unat offset + unat (c_value h) \<or>
                    pageBase v + unat offset + unat (c_cookieSize h)
                      < pageBase v + unat offset + unat (c_comment h) \<or>
                    pageBase v + unat offset + unat (c_cookieSize h)
                      < pageBase v + unat offset + unat (c_commentUrl h) \<or>
                    emitCookie fmt t (pageBase v + unat offset) h \<noteq> None) \<or>
                pageEnd < pageBase v + unat offset + unat (c_cookieSize h)"
          by (simp add: cookie_def Let_def del: add_is_0 split: option.splits if_splits)
        show ?thesis
        proof (cases "pageEnd < pageBase v + unat offset + unat (c_cookieSize h)")
          case True
          with rd rd' fits hdr' Some show ?thesis
            by (simp add: cookie_def)
        next
          case inPage: False
          with body obtain lastByte where
            pk: "(if pageBase v + unat offset + unat (c_cookieSize h) = 0 then None
                  else peek t (pageBase v + unat offset + unat (c_cookieSize h) - 1))
                 = Some lastByte"
            by (auto simp del: add_is_0 split: option.splits)
          then have pk': "(if pageBase v + unat offset + unat (c_cookieSize h) = 0 then None
                  else peek (t @ rest) (pageBase v + unat offset + unat (c_cookieSize h) - 1))
                 = Some lastByte"
            by (auto simp: peek_append simp del: add_is_0 split: if_splits)
          show ?thesis
          proof (cases "emitCookie fmt t (pageBase v + unat offset) h")
            case None
            with body inPage pk rd rd' fits hdr' Some pk' show ?thesis
              by (simp add: cookie_def Let_def del: add_is_0) (auto simp del: add_is_0)
          next
            case object: (Some object)
            then have "emitCookie fmt (t @ rest) (pageBase v + unat offset) h = Some object"
              by (rule emitCookie_append)
            with rd rd' fits hdr' Some inPage pk pk' object show ?thesis
              by (simp add: cookie_def Let_def del: add_is_0)
          qed
        qed
      qed
    qed
  qed
qed

lemma cookieLoop_append:
  "(\<And>r. cookieLoop fmt t pageIdx pageEnd cookieCount cookieIdx cookieOffsetBase v = Inl r
       \<Longrightarrow> \<not> cutShort r) \<Longrightarrow>
   cookieLoop fmt (t @ rest) pageIdx pageEnd cookieCount cookieIdx cookieOffsetBase v =
   cookieLoop fmt t pageIdx pageEnd cookieCount cookieIdx cookieOffsetBase v"
proof (induction fmt t pageIdx pageEnd cookieCount cookieIdx cookieOffsetBase v
    rule: cookieLoop.induct)
  case (1 fmt t pageIdx pageEnd cookieCount cookieIdx cookieOffsetBase v)
  show ?case
  proof (cases "cookieIdx < unat cookieCount")
    case False
    then show ?thesis by simp
  next
    case True
    have step: "cookie fmt (t @ rest) pageIdx pageEnd cookieIdx cookieOffsetBase v =
                cookie fmt t pageIdx pageEnd cookieIdx cookieOffsetBase v"
    proof (rule cookie_append)
      fix r
      assume "cookie fmt t pageIdx pageEnd cookieIdx cookieOffsetBase v = Inl r"
      with True have "cookieLoop fmt t pageIdx pageEnd cookieCount cookieIdx cookieOffsetBase v
                        = Inl r"
        by simp
      then show "\<not> cutShort r" by (rule "1.prems")
    qed
    show ?thesis
    proof (cases "cookie fmt t pageIdx pageEnd cookieIdx cookieOffsetBase v")
      case (Inl r)
      with True step show ?thesis by simp
    next
      case (Inr b)
      obtain cursor v' where b: "b = (cursor, v')" by (cases b)
      have "cookieLoop fmt (t @ rest) pageIdx pageEnd cookieCount (cookieIdx + 1) cursor v' =
            cookieLoop fmt t pageIdx pageEnd cookieCount (cookieIdx + 1) cursor v'"
      proof (rule "1.IH" [OF True Inr [unfolded b] refl])
        fix r
        assume "cookieLoop fmt t pageIdx pageEnd cookieCount (cookieIdx + 1) cursor v' = Inl r"
        with True Inr b
        have "cookieLoop fmt t pageIdx pageEnd cookieCount cookieIdx cookieOffsetBase v = Inl r"
          by simp
        then show "\<not> cutShort r" by (rule "1.prems")
      qed
      with True step Inr b show ?thesis by simp
    qed
  qed
qed

text \<open>The checksum loop, the page and the page loop.\<close>

lemma checkSumLoop_append:
  "checkSumLoop t pageEnd pageCursor running = Some result \<Longrightarrow>
   checkSumLoop (t @ rest) pageEnd pageCursor running = Some result"
proof (induction t pageEnd pageCursor running rule: checkSumLoop.induct)
  case (1 t pageEnd pageCursor running)
  show ?case
  proof (cases "pageCursor < pageEnd")
    case False
    with "1.prems" show ?thesis by simp
  next
    case True
    with "1.prems" obtain byte where
      pk: "peek t pageCursor = Some byte"
      and rec: "checkSumLoop t pageEnd (pageCursor + 4) (running + of_char byte) = Some result"
      by (auto split: option.splits)
    from "1.IH" [OF True pk rec] peek_append [OF pk, of rest] True show ?thesis
      by simp
  qed
qed

lemma memcmp_append_eq:
  "p + length bytes \<le> length t \<Longrightarrow> memcmp (t @ rest) p bytes = memcmp t p bytes"
  by (simp add: memcmp_def)

lemma read32Lo_append_eq:
  "p + 4 \<le> length t \<Longrightarrow> read32Lo (t @ rest) p = read32Lo t p"
  by (intro read32Lo_eqI) (simp_all add: nth_append)

lemma page_append:
  assumes complete: "\<And>r. page fmt t pageIdx v = Inl r \<Longrightarrow> \<not> cutShort r"
  shows "page fmt (t @ rest) pageIdx v = page fmt t pageIdx v"
proof (cases "read32Hi t (pageSizeBase v)")
  case None
  then have "page fmt t pageIdx v = Inl OutOfBounds" by (simp add: page_def Let_def)
  from complete [OF this] show ?thesis by simp
next
  case (Some x)
  obtain pageSize q where x: "x = (pageSize, q)" by (cases x)
  from Some x have rd: "read32Hi t (pageSizeBase v) = Some (pageSize, q)" by simp
  then have rd': "read32Hi (t @ rest) (pageSizeBase v) = Some (pageSize, q)"
    by (rule read32Hi_append)
  show ?thesis
  proof (cases "length t < pageBase v + unat pageSize")
    case True
    with rd have "page fmt t pageIdx v =
        Inl (Return EXIT_CODE_BAD_EOF (stdout v)
              (''File too short, incomplete page '' @ printf_d (int pageIdx) @ [CHR 0x0A]))"
      by (simp add: page_def Let_def)
    from complete [OF this] show ?thesis by simp
  next
    case False
    then have whole: "pageBase v + unat pageSize \<le> length t" by simp
    show ?thesis
    proof (cases "unat pageSize < 4 + 4")
      case True
      with rd rd' whole show ?thesis by (simp add: page_def Let_def)
    next
      case False
      then have size: "8 \<le> unat pageSize" by simp
      from whole size have tag': "memcmp (t @ rest) (pageBase v) COOKIE_PAGE_TAG =
                                  memcmp t (pageBase v) COOKIE_PAGE_TAG"
        by (intro memcmp_append_eq) simp
      from whole size obtain differs where
        tag: "memcmp t (pageBase v) COOKIE_PAGE_TAG = Some differs"
        by (simp add: memcmp_def)
      from whole size have count': "read32Lo (t @ rest) (pageBase v + 4) = read32Lo t (pageBase v + 4)"
        by (intro read32Lo_append_eq) simp
      from whole size obtain cookieCount where
        count: "read32Lo t (pageBase v + 4) = Some (cookieCount, pageBase v + 4 + 4)"
        using read32Lo_inside [of "pageBase v + 4" t] by auto
      show ?thesis
      proof (cases "differs \<or> pageBase v + unat pageSize
                                 < pageBase v + 4 + 4 + unat cookieCount * 4 + 4")
        case True
        with rd rd' whole size tag tag' count count' show ?thesis
          by (auto simp: page_def Let_def)
      next
        case False
        then have same: "\<not> differs"
          and table: "pageBase v + 4 + 4 + unat cookieCount * 4 + 4 \<le> pageBase v + unat pageSize"
          by simp_all
        from table whole obtain differs' where
          ending: "memcmp t (pageBase v + 4 + 4 + unat cookieCount * 4) COOKIE_PAGE_HEADER_END
                   = Some differs'"
          by (simp add: memcmp_def)
        from table whole have
          ending': "memcmp (t @ rest) (pageBase v + 4 + 4 + unat cookieCount * 4)
                    COOKIE_PAGE_HEADER_END
                  = memcmp t (pageBase v + 4 + 4 + unat cookieCount * 4) COOKIE_PAGE_HEADER_END"
          by (intro memcmp_append_eq) simp
        show ?thesis
        proof (cases differs')
          case True
          with rd rd' whole size tag tag' count count' same table ending ending' show ?thesis
            by (simp add: page_def Let_def)
        next
          case False
          have unfold: "\<And>d. read32Hi d (pageSizeBase v) = Some (pageSize, q) \<Longrightarrow>
             pageBase v + unat pageSize \<le> length d \<Longrightarrow>
             memcmp d (pageBase v) COOKIE_PAGE_TAG = Some False \<Longrightarrow>
             read32Lo d (pageBase v + 4) = Some (cookieCount, pageBase v + 4 + 4) \<Longrightarrow>
             memcmp d (pageBase v + 4 + 4 + unat cookieCount * 4) COOKIE_PAGE_HEADER_END
               = Some False \<Longrightarrow>
             page fmt d pageIdx v =
               (case cookieLoop fmt d pageIdx (pageBase v + unat pageSize) cookieCount 0
                       (pageBase v + 4 + 4) (v\<lparr>pageSizeBase := q\<rparr>) of
                  Inl r \<Rightarrow> Inl r
                | Inr v' \<Rightarrow>
                    (case checkSumLoop d (pageBase v + unat pageSize) (pageBase v') (checkSum v') of
                       None \<Rightarrow> Inl OutOfBounds
                     | Some running \<Rightarrow>
                         Inr (v'\<lparr>checkSum := running,
                                 pageBase := pageBase v + unat pageSize\<rparr>)))"
            using size table by (simp add: page_def Let_def)
          have pt: "page fmt t pageIdx v =
               (case cookieLoop fmt t pageIdx (pageBase v + unat pageSize) cookieCount 0
                       (pageBase v + 4 + 4) (v\<lparr>pageSizeBase := q\<rparr>) of
                  Inl r \<Rightarrow> Inl r
                | Inr v' \<Rightarrow>
                    (case checkSumLoop t (pageBase v + unat pageSize) (pageBase v') (checkSum v') of
                       None \<Rightarrow> Inl OutOfBounds
                     | Some running \<Rightarrow>
                         Inr (v'\<lparr>checkSum := running,
                                 pageBase := pageBase v + unat pageSize\<rparr>)))"
            using rd whole tag same count ending False by (intro unfold) simp_all
          have pd: "page fmt (t @ rest) pageIdx v =
               (case cookieLoop fmt (t @ rest) pageIdx (pageBase v + unat pageSize) cookieCount 0
                       (pageBase v + 4 + 4) (v\<lparr>pageSizeBase := q\<rparr>) of
                  Inl r \<Rightarrow> Inl r
                | Inr v' \<Rightarrow>
                    (case checkSumLoop (t @ rest) (pageBase v + unat pageSize) (pageBase v')
                            (checkSum v') of
                       None \<Rightarrow> Inl OutOfBounds
                     | Some running \<Rightarrow>
                         Inr (v'\<lparr>checkSum := running,
                                 pageBase := pageBase v + unat pageSize\<rparr>)))"
            using rd' whole tag tag' same count count' ending ending' False
            by (intro unfold) simp_all
          have loop: "cookieLoop fmt (t @ rest) pageIdx (pageBase v + unat pageSize) cookieCount 0
                        (pageBase v + 4 + 4) (v\<lparr>pageSizeBase := q\<rparr>) =
                      cookieLoop fmt t pageIdx (pageBase v + unat pageSize) cookieCount 0
                        (pageBase v + 4 + 4) (v\<lparr>pageSizeBase := q\<rparr>)"
          proof (rule cookieLoop_append)
            fix r
            assume "cookieLoop fmt t pageIdx (pageBase v + unat pageSize) cookieCount 0
                      (pageBase v + 4 + 4) (v\<lparr>pageSizeBase := q\<rparr>) = Inl r"
            then have "page fmt t pageIdx v = Inl r" by (simp add: pt)
            then show "\<not> cutShort r" by (rule complete)
          qed
          show ?thesis
          proof (cases "cookieLoop fmt t pageIdx (pageBase v + unat pageSize) cookieCount 0
                          (pageBase v + 4 + 4) (v\<lparr>pageSizeBase := q\<rparr>)")
            case (Inl r)
            with loop show ?thesis by (simp add: pt pd)
          next
            case (Inr v')
            show ?thesis
            proof (cases "checkSumLoop t (pageBase v + unat pageSize) (pageBase v') (checkSum v')")
              case None
              with Inr have "page fmt t pageIdx v = Inl OutOfBounds" by (simp add: pt)
              from complete [OF this] show ?thesis by simp
            next
              case (Some running)
              from checkSumLoop_append [OF this, of rest] Some Inr loop show ?thesis
                by (simp add: pt pd)
            qed
          qed
        qed
      qed
    qed
  qed
qed

lemma pageLoop_append:
  "(\<And>r. pageLoop fmt t pageCount pageIdx v = Inl r \<Longrightarrow> \<not> cutShort r) \<Longrightarrow>
   pageLoop fmt (t @ rest) pageCount pageIdx v = pageLoop fmt t pageCount pageIdx v"
proof (induction fmt t pageCount pageIdx v rule: pageLoop.induct)
  case (1 fmt t pageCount pageIdx v)
  show ?case
  proof (cases "pageIdx < unat pageCount")
    case False
    then show ?thesis by simp
  next
    case True
    have step: "page fmt (t @ rest) pageIdx v = page fmt t pageIdx v"
    proof (rule page_append)
      fix r
      assume "page fmt t pageIdx v = Inl r"
      with True have "pageLoop fmt t pageCount pageIdx v = Inl r" by simp
      then show "\<not> cutShort r" by (rule "1.prems")
    qed
    show ?thesis
    proof (cases "page fmt t pageIdx v")
      case (Inl r)
      with True step show ?thesis by simp
    next
      case (Inr v')
      have "pageLoop fmt (t @ rest) pageCount (pageIdx + 1) v' =
            pageLoop fmt t pageCount (pageIdx + 1) v'"
      proof (rule "1.IH" [OF True Inr])
        fix r
        assume "pageLoop fmt t pageCount (pageIdx + 1) v' = Inl r"
        with True Inr have "pageLoop fmt t pageCount pageIdx v = Inl r" by simp
        then show "\<not> cutShort r" by (rule "1.prems")
      qed
      with True step Inr show ?thesis by simp
    qed
  qed
qed


section \<open>Reads inside the buffer\<close>


















section \<open>Truncated files\<close>





lemma scenario_file_decoded:
  "printCookiesFromMmap render0 scenario_file =
     Return EXIT_CODE_OK
       ''{\"cookies\":[{\"version\":1,\"flags\":0,\"domain\":\"x.com\",\"name\":\"a\",\"value\":\"b\",\"expiry\":0,\"creation\":0}]}''
       []"
  by code_simp

lemma scenario_file_pagesEnd:
  "pagesEnd scenario_file = 94"
  by code_simp



section \<open>A changed byte in a magic value\<close>

text \<open>
  C8, as the claim states it: in a file that is decoded, a changed byte in the tag of a
  page would always give a bad magic. In \<open>two_page_file\<close> page 1 starts at 46, and the third
  byte of its tag is also the first byte of the domain offset of the cookie of page 0.
  With that byte changed from 1 to 3 the decoder fails on that cookie, with
  \<open>EXIT_CODE_BAD_PARSE\<close>, before it comes to page 1.
\<close>

theorem changed_tag_byte_bad_parse:
  "printCookiesFromMmap render0 two_page_file =
     Return EXIT_CODE_OK
       ''{\"cookies\":[{\"version\":1,\"flags\":0,\"domain\":\"\",\"expiry\":0,\"creation\":0}]}'' [] \<and>
   pageStart two_page_file 1 = 46 \<and>
   two_page_file ! 48 = CHR 0x01 \<and>
   printCookiesFromMmap render0 (two_page_file[48 := CHR 0x03]) =
     Return EXIT_CODE_BAD_PARSE ''{\"cookies\":[''
       (''Cookie 0 in Page 0 domain out of range'' @ [CHR 0x0A])"
  by code_simp

text \<open>A reader does not see a change outside the bytes it reads; \<open>memcmp\<close> sees one inside.\<close>

lemma read32Hi_update:
  assumes "p < q \<or> q + 4 \<le> p"
  shows "read32Hi (d[p := b]) q = read32Hi d q"
proof (cases "q + 4 \<le> length d")
  case True
  with assms show ?thesis
    by (intro read32Hi_eqI) auto
next
  case False
  then show ?thesis by (simp add: read32Hi_def)
qed

lemma read32Lo_update:
  assumes "p < q \<or> q + 4 \<le> p"
  shows "read32Lo (d[p := b]) q = read32Lo d q"
proof (cases "q + 4 \<le> length d")
  case True
  with assms show ?thesis
    by (intro read32Lo_eqI) auto
next
  case False
  then show ?thesis by (simp add: read32Lo_def)
qed

lemma memcmp_update_outside:
  assumes "p < q \<or> q + length bytes \<le> p"
  shows "memcmp (d[p := b]) q bytes = memcmp d q bytes"
proof (cases "p < q")
  case True
  then show ?thesis by (simp add: memcmp_def)
next
  case False
  with assms have "q \<le> p" and "length bytes \<le> p - q" by simp_all
  then show ?thesis by (simp add: memcmp_def drop_update_swap)
qed

lemma memcmp_update_inside:
  assumes "q \<le> p" and "p < q + length bytes" and "memcmp d q bytes = Some False"
    and "b \<noteq> d ! p"
  shows "memcmp (d[p := b]) q bytes = Some True"
proof -
  from assms(3) have inside: "q + length bytes \<le> length d"
    and eq: "take (length bytes) (drop q d) = bytes"
    by (auto simp: memcmp_def split: if_splits)
  from assms(1,2) inside have "take (length bytes) (drop q d) ! (p - q) = d ! p"
    by simp
  with eq have old: "bytes ! (p - q) = d ! p" by simp
  have "take (length bytes) (drop q (d[p := b])) = bytes[p - q := b]"
    using assms(1) eq by (simp add: drop_update_swap take_update_swap)
  moreover have "bytes[p - q := b] \<noteq> bytes"
    using assms(1,2,4) old by (auto simp: list_update_same_conv)
  ultimately show ?thesis using inside by (simp add: memcmp_def)
qed

text \<open>The page loop up to page \<open>k\<close>, and from there on.\<close>

lemma standAlone_prefix:
  fixes pageCount :: "32 word"
  assumes alone: "standAlone fmt data k"
    and bound: "k \<le> unat pageCount"
    and after: "pageStart data k \<le> p"
  obtains vk where
    "pageLoop fmt data (of_nat k) 0 (initialVars data) = Inr vk"
    "pageLoop fmt (data[p := b]) (of_nat k) 0 (initialVars data) = Inr vk"
    "pageBase vk = pageStart data k"
    "pageSizeBase vk = 8 + 4 * k"
proof -
  define t where "t = take (pageStart data k) data"
  from alone obtain vk where
    run: "pageLoop fmt t (of_nat k) 0 (initialVars data) = Inr vk"
    by (auto simp: standAlone_def t_def split: sum.splits)
  have d1: "data = t @ drop (pageStart data k) data" by (simp add: t_def)
  from after have "take (pageStart data k) (data[p := b]) = t" by (simp add: t_def)
  then have d2: "data[p := b] = t @ drop (pageStart data k) (data[p := b])"
    by (metis append_take_drop_id)
  have r1: "pageLoop fmt (t @ drop (pageStart data k) data) (of_nat k) 0 (initialVars data) =
            pageLoop fmt t (of_nat k) 0 (initialVars data)"
    by (rule pageLoop_append) (use run in auto)
  have r2: "pageLoop fmt (t @ drop (pageStart data k) (data[p := b])) (of_nat k) 0
              (initialVars data) =
            pageLoop fmt t (of_nat k) 0 (initialVars data)"
    by (rule pageLoop_append) (use run in auto)
  from r1 d1 run have run1: "pageLoop fmt data (of_nat k) 0 (initialVars data) = Inr vk"
    by simp
  from r2 d2 run have run2: "pageLoop fmt (data[p := b]) (of_nat k) 0 (initialVars data) = Inr vk"
    by simp
  from pageLoop_layout [OF run1] have "pageBase vk = pageStart data k" "pageSizeBase vk = 8 + 4 * k"
    by (simp_all add: unat_of_nat_bound [OF bound] initialVars_def pageStart_def)
  with run1 run2 show thesis by (intro that)
qed

lemma pages_update:
  assumes accepted: "\<not> headerRejected data"
    and after: "8 + 4 * pageCountOf data \<le> p"
    and count: "unat pageCount = pageCountOf data"
  shows "pages fmt (data[p := b]) = pageLoop fmt (data[p := b]) pageCount 0 (initialVars data)"
proof -
  from after have "read32Hi (data[p := b]) 4 = read32Hi data 4"
    by (intro read32Hi_update) simp
  then have same: "pageCountOf (data[p := b]) = pageCountOf data"
    by (simp add: pageCountOf_def)
  with accepted after have "\<not> headerRejected (data[p := b])"
    by (simp add: headerRejected_def)
  from pages_accepted [OF this, of fmt] obtain pageCount' where
    pt: "pages fmt (data[p := b]) =
           pageLoop fmt (data[p := b]) pageCount' 0 (initialVars (data[p := b]))"
    and count': "unat pageCount' = pageCountOf (data[p := b])"
    by auto
  from count count' same have "pageCount' = pageCount"
    by (simp add: word_unat_eq_iff)
  with pt same show ?thesis by (simp add: initialVars_def)
qed

text \<open>
  C8, amended. In a file that is decoded, a changed byte of the file magic gives a bad
  magic. A changed byte of the tag of page \<open>k\<close>, or of the four bytes that end its table
  of cookie offsets, gives a bad magic when the pages before page \<open>k\<close> stand alone,
  that is when the decoder reads nothing of theirs at or after the start of page \<open>k\<close>;
  and so does a changed byte of the footer when all pages stand alone. (Page 0 has no
  page before it.)
\<close>

theorem changed_magic_byte:
  assumes decoded: "printCookiesFromMmap fmt data = Return EXIT_CODE_OK out err"
    and changed: "b \<noteq> data ! p"
    and place:
      "p < 4 \<or>
       (\<exists>k<pageCountOf data. standAlone fmt data k \<and>
          (pageStart data k \<le> p \<and> p < pageStart data k + 4 \<or>
           headerEndStart data k \<le> p \<and> p < headerEndStart data k + 4)) \<or>
       (standAlone fmt data (pageCountOf data) \<and>
          pagesEnd data + 4 \<le> p \<and> p < pagesEnd data + 8)"
  shows "\<exists>out' err'.
           printCookiesFromMmap fmt (data[p := b]) = Return EXIT_CODE_BAD_MAGIC out' err'"
proof -
  obtain v where pages: "pages fmt data = Inr v"
    using decoded pages_Inl [of fmt data]
    by (cases "pages fmt data") (auto simp: printCookiesFromMmap_def)
  have accepted: "\<not> headerRejected data"
    using pages_rejected_Inl [of data fmt] pages by auto
  from pages_accepted [OF accepted, of fmt] pages obtain pageCount where
    loop: "pageLoop fmt data pageCount 0 (initialVars data) = Inr v"
    and count: "unat pageCount = pageCountOf data"
    by auto
  from pageLoop_layout [OF loop] count have base: "pageBase v = pagesEnd data"
    by (simp add: pageStart_def pagesEnd_def initialVars_def)
  from accepted have len8: "4 + 4 \<le> length data" and magic: "take 4 data = BINARY_COOKIE_MAGIC"
    by (auto simp: headerRejected_def)
  from place consider
      (fileMagic) "p < 4"
    | (inPage) k where "k < pageCountOf data" "standAlone fmt data k"
        "pageStart data k \<le> p \<and> p < pageStart data k + 4 \<or>
         headerEndStart data k \<le> p \<and> p < headerEndStart data k + 4"
    | (footer) "standAlone fmt data (pageCountOf data)"
        "pagesEnd data + 4 \<le> p" "p < pagesEnd data + 8"
    by blast
  then show ?thesis
  proof cases
    case fileMagic
    from len8 magic have "memcmp data 0 BINARY_COOKIE_MAGIC = Some False"
      by (simp add: memcmp_magic)
    from memcmp_update_inside [OF _ _ this changed] fileMagic
    have "memcmp (data[p := b]) 0 BINARY_COOKIE_MAGIC = Some True" by simp
    with len8 have "pages fmt (data[p := b]) =
        Inl (Return EXIT_CODE_BAD_MAGIC [] (''Bad magic - is this a cookie file?'' @ [CHR 0x0A]))"
      by (simp add: pages_def)
    then show ?thesis by (simp add: printCookiesFromMmap_def)
  next
    case (inPage k)
    from inPage(1) count have bound: "k \<le> unat pageCount" and less: "k < unat pageCount"
      by simp_all
    from inPage(3) have psle: "pageStart data k \<le> p"
      by (auto simp: headerEndStart_def)
    from standAlone_prefix [OF inPage(2) bound psle, of b] obtain vk where
      run1: "pageLoop fmt data (of_nat k) 0 (initialVars data) = Inr vk"
      and run2: "pageLoop fmt (data[p := b]) (of_nat k) 0 (initialVars data) = Inr vk"
      and pb: "pageBase vk = pageStart data k"
      and psb: "pageSizeBase vk = 8 + 4 * k"
      by blast
    from pageLoop_split [OF bound, of 0 fmt data "initialVars data"] run1 loop
    have "pageLoop fmt data pageCount k vk = Inr v" by simp
    with less obtain v1 where step: "page fmt data k vk = Inr v1"
      by (auto split: sum.splits)
    from step obtain pageSize q cookieCount where
      rd: "read32Hi data (pageSizeBase vk) = Some (pageSize, q)"
      and whole: "pageBase vk + unat pageSize \<le> length data"
      and size: "8 \<le> unat pageSize"
      and tag: "memcmp data (pageBase vk) COOKIE_PAGE_TAG = Some False"
      and cnt: "read32Lo data (pageBase vk + 4) = Some (cookieCount, pageBase vk + 8)"
      and table: "pageBase vk + 8 + unat cookieCount * 4 + 4 \<le> pageBase vk + unat pageSize"
      and ending: "memcmp data (pageBase vk + 8 + unat cookieCount * 4) COOKIE_PAGE_HEADER_END
                     = Some False"
      by (rule page_Inr_cases)
    from pageStart_ge [of data k] psle have after: "8 + 4 * pageCountOf data \<le> p" by simp
    from after inPage(1) psb have "read32Hi (data[p := b]) (pageSizeBase vk) =
        read32Hi data (pageSizeBase vk)"
      by (intro read32Hi_update) simp
    with rd have rd': "read32Hi (data[p := b]) (pageSizeBase vk) = Some (pageSize, q)" by simp
    from cnt pb have cc: "cookieCountOf data k = unat cookieCount"
      by (simp add: cookieCountOf_def)
    have "\<exists>msg. page fmt (data[p := b]) k vk = Inl (Return EXIT_CODE_BAD_MAGIC (stdout vk) msg)"
    proof (cases "p < pageStart data k + 4")
      case True
      from memcmp_update_inside [OF _ _ tag changed] psle True pb
      have "memcmp (data[p := b]) (pageBase vk) COOKIE_PAGE_TAG = Some True" by simp
      with rd' whole size show ?thesis by (simp add: page_def Let_def)
    next
      case False
      with inPage(3) cc pb have at: "pageBase vk + 8 + unat cookieCount * 4 \<le> p"
        and before: "p < pageBase vk + 8 + unat cookieCount * 4 + 4"
        by (auto simp: headerEndStart_def mult.commute)
      from at have "memcmp (data[p := b]) (pageBase vk) COOKIE_PAGE_TAG =
                    memcmp data (pageBase vk) COOKIE_PAGE_TAG"
        by (intro memcmp_update_outside) simp
      with tag have tag': "memcmp (data[p := b]) (pageBase vk) COOKIE_PAGE_TAG = Some False"
        by simp
      from at have "read32Lo (data[p := b]) (pageBase vk + 4) = read32Lo data (pageBase vk + 4)"
        by (intro read32Lo_update) simp
      with cnt have cnt': "read32Lo (data[p := b]) (pageBase vk + 4)
                             = Some (cookieCount, pageBase vk + 8)"
        by simp
      from memcmp_update_inside [OF at _ ending changed] before
      have "memcmp (data[p := b]) (pageBase vk + 8 + unat cookieCount * 4)
              COOKIE_PAGE_HEADER_END = Some True"
        by simp
      with rd' whole size tag' cnt' table show ?thesis by (simp add: page_def Let_def)
    qed
    then obtain msg where
      "page fmt (data[p := b]) k vk = Inl (Return EXIT_CODE_BAD_MAGIC (stdout vk) msg)"
      by blast
    with less have "pageLoop fmt (data[p := b]) pageCount k vk =
        Inl (Return EXIT_CODE_BAD_MAGIC (stdout vk) msg)"
      by simp
    with pageLoop_split [OF bound, of 0 fmt "data[p := b]" "initialVars data"] run2
    have "pageLoop fmt (data[p := b]) pageCount 0 (initialVars data) =
        Inl (Return EXIT_CODE_BAD_MAGIC (stdout vk) msg)"
      by simp
    with pages_update [OF accepted after count, of fmt b] show ?thesis
      by (simp add: printCookiesFromMmap_def)
  next
    case footer
    from decoded pages have tr: "trailer data v = Return EXIT_CODE_OK out err"
      by (simp add: printCookiesFromMmap_def)
    then have tlen: "pageBase v + 4 + 4 + 4 \<le> length data"
      by (auto simp: trailer_def split: if_splits)
    then obtain saved where rd: "read32Hi data (pageBase v) = Some (saved, pageBase v + 4)"
      by (auto simp: read32Hi_def)
    from tr tlen rd have saved: "saved = checkSum v"
      by (cases "saved = checkSum v") (simp_all add: trailer_def)
    from tlen obtain differs where
      foot: "memcmp data (pageBase v + 4) BINARY_COOKIE_FOOTER = Some differs"
      by (simp add: memcmp_def)
    from tr tlen rd saved foot have "\<not> differs"
      by (cases differs) (simp_all add: trailer_def)
    with foot have foot: "memcmp data (pageBase v + 4) BINARY_COOKIE_FOOTER = Some False"
      by simp
    from count have bound: "pageCountOf data \<le> unat pageCount" by simp
    from count [symmetric] have whole: "(of_nat (pageCountOf data) :: 32 word) = pageCount"
      by simp
    from footer(2) have psle: "pageStart data (pageCountOf data) \<le> p"
      by (simp add: pagesEnd_def)
    from standAlone_prefix [OF footer(1) bound psle, of b] obtain vk where
      run1: "pageLoop fmt data (of_nat (pageCountOf data)) 0 (initialVars data) = Inr vk"
      and run2: "pageLoop fmt (data[p := b]) (of_nat (pageCountOf data)) 0 (initialVars data)
                   = Inr vk"
      by blast
    from run1 whole loop have "vk = v" by simp
    with run2 whole have run: "pageLoop fmt (data[p := b]) pageCount 0 (initialVars data) = Inr v"
      by simp
    from pageStart_ge [of data "pageCountOf data"] psle
    have after: "8 + 4 * pageCountOf data \<le> p" by simp
    from pages_update [OF accepted after count, of fmt b] run
    have pages': "pages fmt (data[p := b]) = Inr v" by simp
    from footer(2) base have "read32Hi (data[p := b]) (pageBase v) = read32Hi data (pageBase v)"
      by (intro read32Hi_update) simp
    with rd saved have rd': "read32Hi (data[p := b]) (pageBase v) = Some (checkSum v, pageBase v + 4)"
      by simp
    from memcmp_update_inside [OF _ _ foot changed] footer(2,3) base
    have "memcmp (data[p := b]) (pageBase v + 4) BINARY_COOKIE_FOOTER = Some True"
      by simp
    with tlen rd' have "trailer (data[p := b]) v =
        Return EXIT_CODE_BAD_MAGIC (stdout v)
          (''Bad file footer - is this a cookie file?'' @ [CHR 0x0A])"
      by (simp add: trailer_def)
    with pages' show ?thesis by (simp add: printCookiesFromMmap_def)
  qed
qed

lemma scenario_file_footer:
  "pageCountOf scenario_file = 1 \<and> standAlone render0 scenario_file 1 \<and>
   scenario_file ! 98 = CHR 0x07"
  by code_simp

theorem changed_magic_byte_witness:
  "printCookiesFromMmap render0 scenario_file =
     Return EXIT_CODE_OK
       ''{\"cookies\":[{\"version\":1,\"flags\":0,\"domain\":\"x.com\",\"name\":\"a\",\"value\":\"b\",\"expiry\":0,\"creation\":0}]}''
       [] \<and>
   CHR 0x00 \<noteq> scenario_file ! 98 \<and>
   standAlone render0 scenario_file (pageCountOf scenario_file) \<and>
   pagesEnd scenario_file + 4 \<le> 98 \<and> 98 < pagesEnd scenario_file + 8 \<and>
   (\<exists>out' err'. printCookiesFromMmap render0 (scenario_file[98 := CHR 0x00]) =
      Return EXIT_CODE_BAD_MAGIC out' err')"
proof -
  have changed: "CHR 0x00 \<noteq> scenario_file ! 98"
    using scenario_file_footer by simp
  have place: "98 < 4 \<or>
       (\<exists>k<pageCountOf scenario_file. standAlone render0 scenario_file k \<and>
          (pageStart scenario_file k \<le> 98 \<and> 98 < pageStart scenario_file k + 4 \<or>
           headerEndStart scenario_file k \<le> 98 \<and> 98 < headerEndStart scenario_file k + 4)) \<or>
       (standAlone render0 scenario_file (pageCountOf scenario_file) \<and>
          pagesEnd scenario_file + 4 \<le> 98 \<and> 98 < pagesEnd scenario_file + 8)"
    using scenario_file_footer scenario_file_pagesEnd by simp
  from changed_magic_byte [OF scenario_file_decoded changed place]
    scenario_file_decoded scenario_file_footer scenario_file_pagesEnd
  show ?thesis by simp
qed


section \<open>A buffer that ends before the header of a cookie\<close>

text \<open>
  C9, as the claim states it: a buffer that ends before the fixed-width header of a
  cookie would fail in the class of short files. \<open>short_header_file\<close> ends where its
  cookie would start, and the decoder returns \<open>EXIT_CODE_BAD_PARSE\<close>.
\<close>

theorem short_header_file_is_bad_parse:
  "printCookiesFromMmap render0 short_header_file =
     Return EXIT_CODE_BAD_PARSE ''{\"cookies\":[''
       (''Cookie 0 in Page 0 too short for cookie header'' @ [CHR 0x0A])"
  by code_simp

text \<open>
  C9, amended. When the decoder comes to a cookie (cookie \<open>i\<close> of page \<open>k\<close>) and the
  buffer holds fewer than 56 bytes (ten 32-bit fields and two 64-bit fields) from the
  start of that cookie, decoding the file fails with \<open>EXIT_CODE_BAD_PARSE\<close> and the
  diagnostic "Cookie i in Page k too short for cookie header", and what was written to
  standard output before stays written.
\<close>

theorem short_cookie_header_is_bad_parse:
  assumes reached: "reachesCookie fmt data k i = Some v"
    and short: "length data < cookieStartOf data k i + 56"
  shows "printCookiesFromMmap fmt data =
           Return EXIT_CODE_BAD_PARSE (stdout v)
             (cookieMessage i k '' too short for cookie header'')"
proof -
  from reached have accepted: "\<not> headerRejected data" and k: "k < pageCountOf data"
    by (auto simp: reachesCookie_def split: if_splits)
  with reached obtain vk where
    before: "pageLoop fmt data (of_nat k) 0 (initialVars data) = Inr vk"
    and checked: "pageChecked data k" and i: "i < cookieCountOf data k"
    and cookies: "cookieLoop fmt data k (pageStart data k + pageSizeOf data k) (of_nat i) 0
                    (pageStart data k + 8) (vk\<lparr>pageSizeBase := 8 + 4 * k + 4\<rparr>) = Inr v"
    by (auto simp: reachesCookie_def split: if_splits sum.splits)
  from pages_accepted [OF accepted, of fmt] obtain pageCount where
    pages: "pages fmt data = pageLoop fmt data pageCount 0 (initialVars data)"
    and count: "unat pageCount = pageCountOf data"
    by auto
  from k count have kle: "k \<le> unat pageCount" and klt: "k < unat pageCount" by simp_all
  have kk: "unat (of_nat k :: 32 word) = k" by (rule unat_of_nat_bound [OF kle])
  from pageLoop_layout [OF before] kk
  have sizes: "pageSizeBase vk = 8 + 4 * k" and base: "pageBase vk = pageStart data k"
    by (simp_all add: initialVars_def pageStart_def)
  from page_reached [OF accepted k checked sizes base, of fmt] obtain cookieCount where
    cc: "unat cookieCount = cookieCountOf data k"
    and page: "page fmt data k vk =
       (case cookieLoop fmt data k (pageStart data k + pageSizeOf data k) cookieCount 0
               (pageStart data k + 8) (vk\<lparr>pageSizeBase := 8 + 4 * k + 4\<rparr>) of
          Inl r \<Rightarrow> Inl r
        | Inr v' \<Rightarrow>
            (case checkSumLoop data (pageStart data k + pageSizeOf data k) (pageBase v')
                    (checkSum v') of
               None \<Rightarrow> Inl OutOfBounds
             | Some running \<Rightarrow>
                 Inr (v'\<lparr>checkSum := running,
                         pageBase := pageStart data k + pageSizeOf data k\<rparr>)))"
    by blast
  from i cc have ile: "i \<le> unat cookieCount" and ilt: "i < unat cookieCount" by simp_all
  from cookieLoop_Inr [OF cookies] base have vbase: "pageBase v = pageStart data k" by simp
  from checked i have "pageStart data k + 8 + 4 * i + 4 \<le> length data"
    by (simp add: pageChecked_def headerEndStart_def)
  then obtain offset where
    entry: "read32Lo data (pageStart data k + 8 + 4 * i)
              = Some (offset, pageStart data k + 8 + 4 * i + 4)"
    by (auto simp: read32Lo_def)
  with short have "length data < pageStart data k + unat offset + 56"
    by (simp add: cookieStartOf_def)
  with entry vbase have
    "cookie fmt data k (pageStart data k + pageSizeOf data k) i (pageStart data k + 8 + 4 * i) v =
       Inl (Return EXIT_CODE_BAD_PARSE (stdout v)
             (cookieMessage i k '' too short for cookie header''))"
    by (simp add: cookie_def)
  with cookieLoop_split [OF ile, of 0 fmt data k "pageStart data k + pageSizeOf data k"
      "pageStart data k + 8" "vk\<lparr>pageSizeBase := 8 + 4 * k + 4\<rparr>"] cookies ilt
  have "cookieLoop fmt data k (pageStart data k + pageSizeOf data k) cookieCount 0
          (pageStart data k + 8) (vk\<lparr>pageSizeBase := 8 + 4 * k + 4\<rparr>) =
        Inl (Return EXIT_CODE_BAD_PARSE (stdout v)
              (cookieMessage i k '' too short for cookie header''))"
    by simp
  with page have "page fmt data k vk =
        Inl (Return EXIT_CODE_BAD_PARSE (stdout v)
              (cookieMessage i k '' too short for cookie header''))"
    by simp
  with pageLoop_split [OF kle, of 0 fmt data "initialVars data"] before klt pages
  have "pages fmt data =
        Inl (Return EXIT_CODE_BAD_PARSE (stdout v)
              (cookieMessage i k '' too short for cookie header''))"
    by simp
  then show ?thesis by (simp add: printCookiesFromMmap_def)
qed

lemma short_header_file_reached:
  "reachesCookie render0 short_header_file 0 0 =
     Some \<lparr>first = True, checkSum = 0, pageSizeBase = 12, pageBase = 12,
           stdout = ''{\"cookies\":[''\<rparr> \<and>
   length short_header_file = 28 \<and> cookieStartOf short_header_file 0 0 = 28"
  by code_simp

theorem short_cookie_header_is_bad_parse_witness:
  "reachesCookie render0 short_header_file 0 0 =
     Some \<lparr>first = True, checkSum = 0, pageSizeBase = 12, pageBase = 12,
           stdout = ''{\"cookies\":[''\<rparr> \<and>
   length short_header_file < cookieStartOf short_header_file 0 0 + 56 \<and>
   printCookiesFromMmap render0 short_header_file =
     Return EXIT_CODE_BAD_PARSE ''{\"cookies\":[''
       (cookieMessage 0 0 '' too short for cookie header'')"
  using short_cookie_header_is_bad_parse [of render0 short_header_file 0 0
      "\<lparr>first = True, checkSum = 0, pageSizeBase = 12, pageBase = 12,
        stdout = ''{\"cookies\":[''\<rparr>"]
    short_header_file_reached
  by simp

end
